theory Spec2Isabelle
  imports Complex_Main "HOL-Library.Word"
begin

unbundle bit_operations_syntax

section \<open>The duplex audio session of services/geminiService.ts\<close>

text \<open>
  The class \<open>LiveChatSession\<close> is embedded as a record of its five private fields together
  with the part of the browser it acts on. Everything the class does to the outside (creating
  and closing audio contexts, opening and closing the transport, acquiring the microphone,
  starting and stopping buffer sources, invoking the caller's callbacks) is appended to a
  trace of effects, in program order. Objects handed out by the browser are natural numbers
  drawn from a counter.

  At an \<open>await\<close> a call is parked while the rest of the session goes on. The decode in
  \<open>handleAudio\<close> and the session promise in \<open>disconnect\<close> are each embedded as two
  halves, the part before the \<open>await\<close> and the part after it, and the state keeps what is
  parked: the messages whose handlers wait for their decode, and the number of
  \<open>disconnect\<close> calls that wait for the session promise. The open handler's wait for the
  microphone is embedded as one step, with the outcome of \<open>getUserMedia\<close> as a parameter.

  Times and sample values are JavaScript numbers. Finite ones are embedded as reals: the
  operations used on them (\<open>Math.max\<close>, \<open>+=\<close>, a multiplication by the power of two
  32768) are the real operations up to the rounding of doubles, which the embedding leaves out.
\<close>

subsection \<open>Messages of the transport\<close>

text \<open>
  \<open>LiveServerMessage\<close>, cut down to the fields the session reads. An absent optional field
  is \<open>None\<close>; \<open>interrupted\<close> is read for its truthiness only.
\<close>

datatype Blob_in = Blob_in (data_in: "string option")

datatype Part = Part (inlineData: "Blob_in option")

datatype Content = Content (parts: "Part list option")

datatype ServerContent = ServerContent (modelTurn: "Content option") (interrupted: bool)

datatype LiveServerMessage = LiveServerMessage (serverContent: "ServerContent option")

datatype js_error =
    Error string
  | TypeError
  | DecodeFailure

text \<open>How a call ends: it returns, it throws, or it is parked at an \<open>await\<close>.\<close>

datatype outcome = Returned | Threw js_error | Suspended

text \<open>The decoded \<open>AudioBuffer\<close>; only its duration (in seconds) is read.\<close>

datatype AudioBuffer = AudioBuffer (duration: real)

subsection \<open>Effects and state\<close>

datatype effect =
    NewAudioContext nat nat
  | LiveConnect nat
  | GetUserMedia nat
  | StartCapture nat nat
  | CallOnOpen
  | CallOnMessage LiveServerMessage
  | CallOnError
  | CallOnClose
  | SourceStart nat real real
  | SourceStop nat
  | ContextClose nat
  | SessionClose nat

text \<open>
  The promise returned by \<open>ai.live.connect\<close>, with the transport it stands for. The
  library settles it; the session only awaits it.
\<close>

datatype promise = Pending nat | Fulfilled nat | Rejected nat

record state =
  sessionPromise :: "promise option"
  inputAudioContext :: "nat option"
  outputAudioContext :: "nat option"
  nextStartTime :: real
  audioSources :: "nat list"
  next_id :: nat
  trace :: "effect list"
  decoding :: "LiveServerMessage list"
  parked_disconnects :: nat

text \<open>
  \<open>new LiveChatSession()\<close>: the field initialisers of the class. Nothing is parked on a new
  object.
\<close>

definition new_LiveChatSession :: "state \<Rightarrow> state" where
  "new_LiveChatSession s =
     s\<lparr>sessionPromise := None, inputAudioContext := None, outputAudioContext := None,
       nextStartTime := 0, audioSources := [], decoding := [], parked_disconnects := 0\<rparr>"

definition initial :: state where
  "initial =
     \<lparr>sessionPromise = None, inputAudioContext = None, outputAudioContext = None,
      nextStartTime = 0, audioSources = [], next_id = 0, trace = [],
      decoding = [], parked_disconnects = 0\<rparr>"

definition emit :: "effect \<Rightarrow> state \<Rightarrow> state" where
  "emit e s = s\<lparr>trace := trace s @ [e]\<rparr>"

subsection \<open>connect\<close>

text \<open>
  \<open>ai\<close> is the module-level client: \<open>True\<close> iff \<open>process.env.API_KEY\<close> was set when
  the module was loaded. The four callbacks are the caller's; their invocations appear in the
  trace.
\<close>

definition connect :: "bool \<Rightarrow> state \<Rightarrow> outcome \<times> state" where
  "connect ai s =
     (if \<not> ai then (Threw (Error ''API key not configured.''), s)
      else if sessionPromise s \<noteq> None then (Returned, s)
      else
        let c = next_id s;
            s1 = emit (NewAudioContext c 24000) (s\<lparr>outputAudioContext := Some c, next_id := c + 1\<rparr>);
            t = next_id s1;
            s2 = emit (LiveConnect t) (s1\<lparr>sessionPromise := Some (Pending t), next_id := t + 1\<rparr>)
        in (Returned, s2))"

text \<open>
  The \<open>onopen\<close> callback. \<open>granted\<close> tells whether \<open>getUserMedia\<close> resolves; when it
  rejects, the callback ends there and \<open>onOpen\<close> is never called.
\<close>

definition onopen :: "bool \<Rightarrow> state \<Rightarrow> outcome \<times> state" where
  "onopen granted s =
     (let c = next_id s;
          s1 = emit (NewAudioContext c 16000) (s\<lparr>inputAudioContext := Some c, next_id := c + 1\<rparr>)
      in if \<not> granted then (Threw (Error ''getUserMedia''), s1)
         else
           let m = next_id s1;
               s2 = emit (GetUserMedia m) (s1\<lparr>next_id := m + 1\<rparr>);
               s3 = emit (StartCapture c m) s2
           in (Returned, emit CallOnOpen s3))"

subsection \<open>Playback: handleAudio and interruptAudio\<close>

text \<open>
  \<open>message.serverContent?.modelTurn?.parts[0]?.inlineData.data\<close>: the optional chain stops
  with \<open>undefined\<close> at an absent \<open>serverContent\<close>, \<open>modelTurn\<close> or first part; the two
  plain accesses throw a \<open>TypeError\<close> on \<open>undefined\<close>.
\<close>

definition base64Audio :: "LiveServerMessage \<Rightarrow> js_error + string option" where
  "base64Audio m =
     (case serverContent m of
        None \<Rightarrow> Inr None
      | Some sc \<Rightarrow>
          (case modelTurn sc of
             None \<Rightarrow> Inr None
           | Some mt \<Rightarrow>
               (case parts mt of
                  None \<Rightarrow> Inl TypeError
                | Some ps \<Rightarrow>
                    (case ps of
                       [] \<Rightarrow> Inr None
                     | p # _ \<Rightarrow>
                         (case inlineData p of
                            None \<Rightarrow> Inl TypeError
                          | Some b \<Rightarrow> Inr (data_in b))))))"

text \<open>\<open>Set.prototype.add\<close> and \<open>delete\<close> on an insertion-ordered set.\<close>

definition set_add :: "nat \<Rightarrow> nat list \<Rightarrow> nat list" where
  "set_add x xs = (if x \<in> set xs then xs else xs @ [x])"

definition set_delete :: "nat \<Rightarrow> nat list \<Rightarrow> nat list" where
  "set_delete x xs = removeAll x xs"

text \<open>
  \<open>handleAudio\<close> up to its \<open>await\<close> (lines 120 to 124). \<open>now\<close> is the value read from
  \<open>outputAudioContext.currentTime\<close>. The cursor is raised to the clock, then the handler is
  parked at the decode. A string is truthy iff it is not empty.
\<close>

definition handleAudio_begin :: "LiveServerMessage \<Rightarrow> real \<Rightarrow> state \<Rightarrow> outcome \<times> state" where
  "handleAudio_begin message now s =
     (case outputAudioContext s of
        None \<Rightarrow> (Returned, s)
      | Some ctx \<Rightarrow>
          (case base64Audio message of
             Inl e \<Rightarrow> (Threw e, s)
           | Inr None \<Rightarrow> (Returned, s)
           | Inr (Some b64) \<Rightarrow>
               if b64 = [] then (Returned, s)
               else (Suspended, s\<lparr>nextStartTime := max (nextStartTime s) now\<rparr>)))"

text \<open>
  \<open>handleAudio\<close> from its \<open>await\<close> on (lines 124 to 133), in the state the session is in
  when the decode is over. \<open>decoded\<close> is what \<open>decodeAudioData(decode(base64Audio), ...)\<close>
  of utils/audioUtils delivers: a buffer, or the error it throws. The source is started at
  the cursor as it is then.
\<close>

definition handleAudio_resume :: "js_error + AudioBuffer \<Rightarrow> state \<Rightarrow> outcome \<times> state" where
  "handleAudio_resume decoded s =
     (case decoded of
        Inl e \<Rightarrow> (Threw e, s)
      | Inr audioBuffer \<Rightarrow>
          let source = next_id s;
              s2 = s\<lparr>next_id := source + 1\<rparr>;
              s3 = emit (SourceStart source (nextStartTime s2) (duration audioBuffer)) s2;
              s4 = s3\<lparr>nextStartTime := nextStartTime s3 + duration audioBuffer\<rparr>
          in (Returned, s4\<lparr>audioSources := set_add source (audioSources s4)\<rparr>))"

text \<open>The two halves with nothing else of the session running in between.\<close>

definition handleAudio ::
  "LiveServerMessage \<Rightarrow> real \<Rightarrow> js_error + AudioBuffer \<Rightarrow> state \<Rightarrow> outcome \<times> state" where
  "handleAudio message now decoded s =
     (case handleAudio_begin message now s of
        (Suspended, s1) \<Rightarrow> handleAudio_resume decoded s1
      | (out, s1) \<Rightarrow> (out, s1))"

text \<open>
  The loop of \<open>interruptAudio\<close> walks the set and deletes the element it stands on, so it
  visits every element that was in the set when it began, in insertion order.
\<close>

fun stop_all :: "nat list \<Rightarrow> state \<Rightarrow> state" where
  "stop_all [] s = s"
| "stop_all (source # rest) s =
     stop_all rest ((emit (SourceStop source) s)\<lparr>audioSources := set_delete source (audioSources s)\<rparr>)"

definition interruptAudio :: "state \<Rightarrow> state" where
  "interruptAudio s = (stop_all (audioSources s) s)\<lparr>nextStartTime := 0\<rparr>"

text \<open>The listener for \<open>ended\<close> that \<open>handleAudio\<close> puts on each source.\<close>

definition ended :: "nat \<Rightarrow> state \<Rightarrow> state" where
  "ended source s = s\<lparr>audioSources := set_delete source (audioSources s)\<rparr>"

text \<open>
  The \<open>onmessage\<close> callback: the caller's callback, the audio, then the interruption
  (lines 90 to 92), which is reached only when \<open>handleAudio\<close> has returned.
\<close>

definition interrupted_check :: "LiveServerMessage \<Rightarrow> state \<Rightarrow> state" where
  "interrupted_check message s =
     (case serverContent message of
        None \<Rightarrow> s
      | Some sc \<Rightarrow> if interrupted sc then interruptAudio s else s)"

text \<open>
  The callback up to the \<open>await\<close> of the decode: when \<open>handleAudio\<close> gets that far, the
  handler is parked with its message; otherwise the callback runs to its end.
\<close>

definition onmessage_begin :: "LiveServerMessage \<Rightarrow> real \<Rightarrow> state \<Rightarrow> outcome \<times> state" where
  "onmessage_begin message now s =
     (case handleAudio_begin message now (emit (CallOnMessage message) s) of
        (Suspended, s1) \<Rightarrow> (Suspended, s1\<lparr>decoding := decoding s1 @ [message]\<rparr>)
      | (Returned, s1) \<Rightarrow> (Returned, interrupted_check message s1)
      | (out, s1) \<Rightarrow> (out, s1))"

text \<open>
  The decode of the k-th parked handler is over: the handler leaves the parked ones and runs
  to its end. With no such handler nothing happens.
\<close>

definition onmessage_resume :: "nat \<Rightarrow> js_error + AudioBuffer \<Rightarrow> state \<Rightarrow> outcome \<times> state" where
  "onmessage_resume k decoded s =
     (if length (decoding s) \<le> k then (Returned, s)
      else
        let message = decoding s ! k;
            s1 = s\<lparr>decoding := take k (decoding s) @ drop (Suc k) (decoding s)\<rparr>
        in (case handleAudio_resume decoded s1 of
              (Returned, s2) \<Rightarrow> (Returned, interrupted_check message s2)
            | (out, s2) \<Rightarrow> (out, s2)))"

text \<open>The callback with nothing else of the session running during its decode.\<close>

definition onmessage ::
  "LiveServerMessage \<Rightarrow> real \<Rightarrow> js_error + AudioBuffer \<Rightarrow> state \<Rightarrow> outcome \<times> state" where
  "onmessage message now decoded s =
     (case handleAudio message now decoded (emit (CallOnMessage message) s) of
        (Returned, s1) \<Rightarrow> (Returned, interrupted_check message s1)
      | (out, s1) \<Rightarrow> (out, s1))"

text \<open>\<open>onerror: onError\<close> and \<open>onclose: onClose\<close>: the caller's callbacks, passed through.\<close>

definition onerror :: "state \<Rightarrow> state" where
  "onerror s = emit CallOnError s"

definition onclose :: "state \<Rightarrow> state" where
  "onclose s = emit CallOnClose s"

subsection \<open>disconnect\<close>

text \<open>
  \<open>await this.sessionPromise\<close> parks the call while the promise is pending and throws when
  it is rejected; \<open>null\<close> and a fulfilled promise let it go on. A parked call goes on when
  the promise is settled (see \<open>settle\<close>). The two contexts are closed through the fields,
  which keep their values.
\<close>

definition close_context :: "nat option \<Rightarrow> state \<Rightarrow> state" where
  "close_context ctx s = (case ctx of None \<Rightarrow> s | Some c \<Rightarrow> emit (ContextClose c) s)"

definition teardown :: "state \<Rightarrow> state" where
  "teardown s =
     (let s1 = close_context (inputAudioContext s) s;
          s2 = close_context (outputAudioContext s1) s1
      in interruptAudio (s2\<lparr>sessionPromise := None\<rparr>))"

definition disconnect :: "state \<Rightarrow> outcome \<times> state" where
  "disconnect s =
     (case sessionPromise s of
        None \<Rightarrow> (Returned, teardown s)
      | Some (Pending t) \<Rightarrow> (Suspended, s\<lparr>parked_disconnects := Suc (parked_disconnects s)\<rparr>)
      | Some (Rejected t) \<Rightarrow> (Threw (Error ''connect rejected''), s)
      | Some (Fulfilled t) \<Rightarrow> (Returned, teardown (emit (SessionClose t) s)))"

subsection \<open>Capture: createPcmBlob\<close>

text \<open>
  A JavaScript number: a finite value, \<open>NaN\<close> or an infinity. The samples of a
  \<open>Float32Array\<close> are numbers of this kind.
\<close>

datatype number = Finite real | NaN | PosInfinity | NegInfinity

text \<open>\<open>data[i] * 32768\<close>.\<close>

definition times_32768 :: "number \<Rightarrow> number" where
  "times_32768 v =
     (case v of
        Finite x \<Rightarrow> Finite (x * 32768)
      | NaN \<Rightarrow> NaN
      | PosInfinity \<Rightarrow> PosInfinity
      | NegInfinity \<Rightarrow> NegInfinity)"

text \<open>
  Storing a number into an \<open>Int16Array\<close> applies \<open>ToInt16\<close>: \<open>NaN\<close> and the infinities
  become 0, a finite value is truncated towards zero and reduced modulo \<open>2 ^ 16\<close> into the
  signed range. The 16-bit word holds the bit pattern; \<open>sint\<close> reads the stored integer.
\<close>

definition js_truncate :: "real \<Rightarrow> int" where
  "js_truncate x = (if 0 \<le> x then \<lfloor>x\<rfloor> else \<lceil>x\<rceil>)"

definition ToInt16 :: "number \<Rightarrow> 16 word" where
  "ToInt16 v =
     (case v of
        Finite x \<Rightarrow> word_of_int (js_truncate x)
      | NaN \<Rightarrow> 0
      | PosInfinity \<Rightarrow> 0
      | NegInfinity \<Rightarrow> 0)"

text \<open>The loop \<open>for (let i = 0; i < l; i++) int16[i] = data[i] * 32768\<close>.\<close>

fun fill_int16 :: "number list \<Rightarrow> 16 word list" where
  "fill_int16 [] = []"
| "fill_int16 (x # xs) = ToInt16 (times_32768 x) # fill_int16 xs"

text \<open>
  \<open>new Uint8Array(int16.buffer)\<close>: the bytes of the array's buffer, in the byte order of
  the platform, taken to be little-endian.
\<close>

fun Uint8Array_of :: "16 word list \<Rightarrow> 8 word list" where
  "Uint8Array_of [] = []"
| "Uint8Array_of (w # ws) = ucast w # ucast (drop_bit 8 w) # Uint8Array_of ws"

record Blob =
  data :: string
  mimeType :: string

text \<open>
  \<open>encode\<close> of utils/audioUtils (the text form of the bytes that goes on the wire) is a
  parameter; \<open>pcm_bytes\<close> is the chunk handed to it.
\<close>

definition pcm_bytes :: "number list \<Rightarrow> 8 word list" where
  "pcm_bytes samples = Uint8Array_of (fill_int16 samples)"

definition createPcmBlob :: "(8 word list \<Rightarrow> string) \<Rightarrow> number list \<Rightarrow> Blob" where
  "createPcmBlob encode samples =
     \<lparr>data = encode (pcm_bytes samples), mimeType = ''audio/pcm;rate=16000''\<rparr>"

text \<open>
  Reading a chunk back, as the receiving side of the transport does: the i-th 16-bit value is
  read little-endian as a signed integer, and inverse scaling divides it by 32768.
\<close>

definition int16_at :: "8 word list \<Rightarrow> nat \<Rightarrow> int" where
  "int16_at bytes i =
     sint (push_bit 8 (ucast (bytes ! (2 * i + 1)) :: 16 word) OR ucast (bytes ! (2 * i)))"

definition inverse_scale :: "int \<Rightarrow> real" where
  "inverse_scale k = real_of_int k / 32768"

subsection \<open>Devices held, read off the trace\<close>

text \<open>
  An audio context is held from its creation until \<open>close\<close> is called on it, a transport
  from \<open>ai.live.connect\<close> until \<open>close\<close> is called on its session. A microphone stream is
  held from \<open>getUserMedia\<close> until its tracks are stopped; no effect of the program stops a
  track, so every stream acquired stays held.
\<close>

fun created_contexts :: "effect list \<Rightarrow> nat list" where
  "created_contexts [] = []"
| "created_contexts (NewAudioContext c r # es) = c # created_contexts es"
| "created_contexts (e # es) = created_contexts es"

fun opened_transports :: "effect list \<Rightarrow> nat list" where
  "opened_transports [] = []"
| "opened_transports (LiveConnect t # es) = t # opened_transports es"
| "opened_transports (e # es) = opened_transports es"

fun acquired_microphones :: "effect list \<Rightarrow> nat list" where
  "acquired_microphones [] = []"
| "acquired_microphones (GetUserMedia m # es) = m # acquired_microphones es"
| "acquired_microphones (e # es) = acquired_microphones es"

definition held_contexts :: "state \<Rightarrow> nat list" where
  "held_contexts s = filter (\<lambda>c. ContextClose c \<notin> set (trace s)) (created_contexts (trace s))"

definition held_transports :: "state \<Rightarrow> nat list" where
  "held_transports s = filter (\<lambda>t. SessionClose t \<notin> set (trace s)) (opened_transports (trace s))"

definition held_microphones :: "state \<Rightarrow> nat list" where
  "held_microphones s = acquired_microphones (trace s)"

text \<open>The buffers scheduled so far, as pairs of start time and duration, in order.\<close>

fun scheduled :: "effect list \<Rightarrow> (real \<times> real) list" where
  "scheduled [] = []"
| "scheduled (SourceStart src t d # es) = (t, d) # scheduled es"
| "scheduled (e # es) = scheduled es"

subsection \<open>The caller: components/ai/SupportChatbot.tsx\<close>

datatype ConnectionState = disconnected | connecting | connected | error

text \<open>
  The component's \<open>connectionState\<close>, whether \<open>liveChatSessionRef.current\<close> is set, and
  the session it refers to (with the browser).
\<close>

record chatbot =
  connectionState :: ConnectionState
  liveChatSessionRef :: bool
  live :: state

text \<open>
  \<open>SupportChatbot.connect\<close>: asks for the microphone itself before it calls the session's
  \<open>connect\<close>; a refusal or a throw of \<open>connect\<close> lands in the \<open>catch\<close>.
\<close>

definition SupportChatbot_connect :: "bool \<Rightarrow> bool \<Rightarrow> chatbot \<Rightarrow> chatbot" where
  "SupportChatbot_connect ai granted cb =
     (let cb1 = cb\<lparr>connectionState := connecting\<rparr>;
          cb2 = (if \<not> liveChatSessionRef cb1
                 then cb1\<lparr>liveChatSessionRef := True, live := new_LiveChatSession (live cb1)\<rparr>
                 else cb1)
      in if \<not> granted then cb2\<lparr>connectionState := error\<rparr>
         else
           let m = next_id (live cb2);
               s1 = emit (GetUserMedia m) ((live cb2)\<lparr>next_id := m + 1\<rparr>)
           in (case connect ai s1 of
                 (Threw e, s2) \<Rightarrow> cb2\<lparr>live := s2, connectionState := error\<rparr>
               | (out, s2) \<Rightarrow> cb2\<lparr>live := s2\<rparr>))"

text \<open>The callbacks it passes, run when the session's handlers call them.\<close>

definition SupportChatbot_onError :: "chatbot \<Rightarrow> chatbot" where
  "SupportChatbot_onError cb = cb\<lparr>live := onerror (live cb), connectionState := error\<rparr>"

definition SupportChatbot_onClose :: "chatbot \<Rightarrow> chatbot" where
  "SupportChatbot_onClose cb = cb\<lparr>live := onclose (live cb), connectionState := disconnected\<rparr>"

subsection \<open>The environment: the library and the transport\<close>

text \<open>
  The library settles the promise of \<open>ai.live.connect\<close>: it resolves or rejects it. The
  \<open>disconnect\<close> calls parked at the promise then go on, one after the other: when it is
  resolved, each runs lines 147 to 151 with the session of the transport; when it is rejected,
  each throws and changes nothing.
\<close>

fun resume_disconnects :: "nat \<Rightarrow> nat \<Rightarrow> state \<Rightarrow> state" where
  "resume_disconnects 0 t s = s"
| "resume_disconnects (Suc n) t s = resume_disconnects n t (teardown (emit (SessionClose t) s))"

definition settle :: "bool \<Rightarrow> state \<Rightarrow> state" where
  "settle ok s =
     (case sessionPromise s of
        Some (Pending t) \<Rightarrow>
          let s1 = s\<lparr>sessionPromise := Some (if ok then Fulfilled t else Rejected t),
                    parked_disconnects := 0\<rparr>
          in if ok then resume_disconnects (parked_disconnects s) t s1 else s1
      | _ \<Rightarrow> s)"

text \<open>
  A delivery is a message with the clock value its handler reads and with what the decode of
  its audio delivers. It plays when it gets a buffer scheduled and is no interruption: its
  message carries a non-empty audio string and no \<open>interrupted\<close> flag, and the decode
  delivers a buffer, whose duration is not negative.
\<close>

type_synonym delivery = "LiveServerMessage \<times> real \<times> (js_error + AudioBuffer)"

definition carries_audio :: "LiveServerMessage \<Rightarrow> bool" where
  "carries_audio m = (case base64Audio m of Inr (Some b64) \<Rightarrow> b64 \<noteq> [] | _ \<Rightarrow> False)"

definition is_interruption :: "LiveServerMessage \<Rightarrow> bool" where
  "is_interruption m = (case serverContent m of None \<Rightarrow> False | Some sc \<Rightarrow> interrupted sc)"

fun plays :: "delivery \<Rightarrow> bool" where
  "plays (m, now, Inr buf) = (carries_audio m \<and> \<not> is_interruption m \<and> 0 \<le> duration buf)"
| "plays (m, now, Inl e) = False"

fun clock_of :: "delivery \<Rightarrow> real" where
  "clock_of (m, now, decoded) = now"

fun duration_of :: "delivery \<Rightarrow> real" where
  "duration_of (m, now, Inr buf) = duration buf"
| "duration_of (m, now, Inl e) = 0"

text \<open>The buffers scheduled between an earlier state and a later one.\<close>

definition newly_scheduled :: "state \<Rightarrow> state \<Rightarrow> (real \<times> real) list" where
  "newly_scheduled s s' = drop (length (scheduled (trace s))) (scheduled (trace s'))"

text \<open>
  Buffers scheduled so that none starts before the one scheduled before it has ended.
\<close>

fun no_overlap :: "(real \<times> real) list \<Rightarrow> bool" where
  "no_overlap [] = True"
| "no_overlap [x] = True"
| "no_overlap (x # y # rest) = (fst x + snd x \<le> fst y \<and> no_overlap (y # rest))"

text \<open>
  The scheduling rule in the spec's words: a buffer starts at the maximum of the cursor and
  the clock, and the cursor moves to that start plus the buffer's duration. The argument
  pairs each buffer's clock value with its duration.
\<close>

fun plan :: "real \<Rightarrow> (real \<times> real) list \<Rightarrow> (real \<times> real) list" where
  "plan cursor [] = []"
| "plan cursor ((now, d) # rest) = (max cursor now, d) # plan (max cursor now + d) rest"

text \<open>
  What can happen to a session: the calls of its two public methods and the events of the
  transport, the library and the browser. A message arrives (its handler runs up to the
  decode), and later the decode of a parked handler is over. \<open>run\<close> lets the events happen
  in order; handlers overlap when a message arrives while another is parked.
\<close>

datatype event =
    Connect
  | Open bool
  | Settle bool
  | Arrive LiveServerMessage real
  | Decoded nat "js_error + AudioBuffer"
  | Ended nat
  | TransportError
  | TransportClose
  | Disconnect

fun step :: "bool \<Rightarrow> event \<Rightarrow> state \<Rightarrow> state" where
  "step ai Connect s = snd (connect ai s)"
| "step ai (Open granted) s = snd (onopen granted s)"
| "step ai (Settle ok) s = settle ok s"
| "step ai (Arrive message now) s = snd (onmessage_begin message now s)"
| "step ai (Decoded k decoded) s = snd (onmessage_resume k decoded s)"
| "step ai (Ended source) s = ended source s"
| "step ai TransportError s = onerror s"
| "step ai TransportClose s = onclose s"
| "step ai Disconnect s = snd (disconnect s)"

fun run :: "bool \<Rightarrow> event list \<Rightarrow> state \<Rightarrow> state" where
  "run ai [] s = s"
| "run ai (e # es) s = run ai es (step ai e s)"

text \<open>
  Deliveries handled one at a time: each message arrives and its decode is over before the
  next message arrives.
\<close>

fun one_at_a_time :: "delivery list \<Rightarrow> event list" where
  "one_at_a_time [] = []"
| "one_at_a_time ((message, now, decoded) # rest) =
     Arrive message now # Decoded 0 decoded # one_at_a_time rest"

text \<open>
  An event that neither flushes the playback nor schedules a buffer of negative duration:
  no message with the \<open>interrupted\<close> flag arrives, no \<open>disconnect\<close> is called or resumed.
\<close>

fun no_flush :: "event \<Rightarrow> bool" where
  "no_flush (Arrive message now) = (\<not> is_interruption message)"
| "no_flush (Decoded k (Inr buf)) = (0 \<le> duration buf)"
| "no_flush (Decoded k (Inl e)) = True"
| "no_flush Disconnect = False"
| "no_flush (Settle ok) = False"
| "no_flush e = True"

subsection \<open>Scenarios\<close>

text \<open>
  A message carrying one audio part, a message carrying only the interruption flag, the
  session after a connect whose transport has opened (microphone granted, promise resolved),
  and that session after one half-second buffer was scheduled at clock 0 with nothing else
  running during its decode.
\<close>

definition audio_message :: "string \<Rightarrow> LiveServerMessage" where
  "audio_message b64 =
     LiveServerMessage (Some (ServerContent (Some (Content (Some [Part (Some (Blob_in (Some b64)))]))) False))"

definition interruption_message :: LiveServerMessage where
  "interruption_message = LiveServerMessage (Some (ServerContent None True))"

text \<open>A message that carries neither audio nor the interruption flag, as a transcript does.\<close>

definition transcript_message :: LiveServerMessage where
  "transcript_message = LiveServerMessage (Some (ServerContent None False))"

text \<open>An interruption whose model turn begins with a part that is not inline data.\<close>

definition text_first_interruption :: LiveServerMessage where
  "text_first_interruption =
     LiveServerMessage (Some (ServerContent (Some (Content (Some [Part None]))) True))"

definition connected_session :: state where
  "connected_session = settle True (snd (onopen True (snd (connect True initial))))"

definition playing_session :: state where
  "playing_session =
     snd (onmessage (audio_message ''AAAA'') 0 (Inr (AudioBuffer 0.5)) connected_session)"

section \<open>Properties\<close>

subsection \<open>Auxiliary facts\<close>

lemma handleAudio_unfold:
  "handleAudio message now decoded s =
     (case outputAudioContext s of
        None \<Rightarrow> (Returned, s)
      | Some ctx \<Rightarrow>
          (case base64Audio message of
             Inl e \<Rightarrow> (Threw e, s)
           | Inr None \<Rightarrow> (Returned, s)
           | Inr (Some b64) \<Rightarrow>
               if b64 = [] then (Returned, s)
               else
                 let s1 = s\<lparr>nextStartTime := max (nextStartTime s) now\<rparr>
                 in (case decoded of
                       Inl e \<Rightarrow> (Threw e, s1)
                     | Inr audioBuffer \<Rightarrow>
                         let source = next_id s1;
                             s2 = s1\<lparr>next_id := source + 1\<rparr>;
                             s3 = emit (SourceStart source (nextStartTime s2) (duration audioBuffer)) s2;
                             s4 = s3\<lparr>nextStartTime := nextStartTime s3 + duration audioBuffer\<rparr>
                         in (Returned, s4\<lparr>audioSources := set_add source (audioSources s4)\<rparr>))))"
  by (simp add: handleAudio_def handleAudio_begin_def handleAudio_resume_def Let_def
      split: option.splits sum.splits)

lemma onmessage_unfold:
  "onmessage message now decoded s =
     (case handleAudio message now decoded (emit (CallOnMessage message) s) of
        (Returned, s1) \<Rightarrow>
          (case serverContent message of
             None \<Rightarrow> (Returned, s1)
           | Some sc \<Rightarrow> if interrupted sc then (Returned, interruptAudio s1) else (Returned, s1))
      | (out, s1) \<Rightarrow> (out, s1))"
  by (simp add: onmessage_def interrupted_check_def split: prod.splits outcome.splits option.splits)

lemma stop_all_trace: "trace (stop_all xs s) = trace s @ map SourceStop xs"
  by (induction xs arbitrary: s) (simp_all add: emit_def)

lemma stop_all_audioSources:
  "audioSources (stop_all xs s) = filter (\<lambda>x. x \<notin> set xs) (audioSources s)"
  by (induction xs arbitrary: s)
    (auto simp add: emit_def set_delete_def removeAll_filter_not_eq intro!: filter_cong)

lemma stop_all_fields:
  "sessionPromise (stop_all xs s) = sessionPromise s"
  "inputAudioContext (stop_all xs s) = inputAudioContext s"
  "outputAudioContext (stop_all xs s) = outputAudioContext s"
  "nextStartTime (stop_all xs s) = nextStartTime s"
  "next_id (stop_all xs s) = next_id s"
  "decoding (stop_all xs s) = decoding s"
  "parked_disconnects (stop_all xs s) = parked_disconnects s"
  by (induction xs arbitrary: s) (simp_all add: emit_def)

lemma interruptAudio_fields:
  "audioSources (interruptAudio s) = []"
  "nextStartTime (interruptAudio s) = 0"
  "trace (interruptAudio s) = trace s @ map SourceStop (audioSources s)"
  "sessionPromise (interruptAudio s) = sessionPromise s"
  "inputAudioContext (interruptAudio s) = inputAudioContext s"
  "outputAudioContext (interruptAudio s) = outputAudioContext s"
  "next_id (interruptAudio s) = next_id s"
  "decoding (interruptAudio s) = decoding s"
  "parked_disconnects (interruptAudio s) = parked_disconnects s"
  by (simp_all add: interruptAudio_def stop_all_trace stop_all_audioSources stop_all_fields)

lemma length_fill_int16: "length (fill_int16 xs) = length xs"
  by (induction xs) simp_all

lemma length_Uint8Array_of: "length (Uint8Array_of ws) = 2 * length ws"
  by (induction ws) simp_all

lemma fill_int16_nth: "i < length xs \<Longrightarrow> fill_int16 xs ! i = ToInt16 (times_32768 (xs ! i))"
  by (induction xs arbitrary: i) (simp_all add: nth_Cons split: nat.splits)

lemma le_bytes_word:
  "push_bit 8 (ucast (ucast (drop_bit 8 w) :: 8 word) :: 16 word) OR ucast (ucast w :: 8 word)
     = (w :: 16 word)"
  by (rule bit_word_eqI) (auto simp add: bit_simps)

lemma int16_at_Uint8Array_of:
  "i < length ws \<Longrightarrow> int16_at (Uint8Array_of ws) i = sint (ws ! i)"
proof (induction ws arbitrary: i)
  case Nil
  then show ?case by simp
next
  case (Cons w ws)
  show ?case
  proof (cases i)
    case 0
    then show ?thesis by (simp add: int16_at_def le_bytes_word)
  next
    case (Suc j)
    with Cons.prems have "j < length ws" by simp
    from Cons.IH [OF this] show ?thesis using Suc by (simp add: int16_at_def)
  qed
qed

lemma sint_word_of_int_16:
  "- 32768 \<le> k \<Longrightarrow> k < 32768 \<Longrightarrow> sint (word_of_int k :: 16 word) = k"
  by (simp add: sint_sbintrunc' signed_take_bit_int_eq_self)

lemma truncate_close: "\<bar>real_of_int (js_truncate y) - y\<bar> < 1"
  unfolding js_truncate_def by (simp; linarith)

lemma truncate_in_range:
  "- 1 \<le> x \<Longrightarrow> x < 1 \<Longrightarrow> - 32768 \<le> js_truncate (x * 32768) \<and> js_truncate (x * 32768) < 32768"
  unfolding js_truncate_def by (simp; linarith)

lemma int16_at_pcm_bytes:
  assumes "i < length samples" and "samples ! i = Finite x" and "- 1 \<le> x" and "x < 1"
  shows "int16_at (pcm_bytes samples) i = js_truncate (x * 32768)"
proof -
  have "int16_at (pcm_bytes samples) i = sint (fill_int16 samples ! i)"
    using assms(1) by (simp add: pcm_bytes_def int16_at_Uint8Array_of length_fill_int16)
  also have "\<dots> = sint (word_of_int (js_truncate (x * 32768)) :: 16 word)"
    using assms(1,2) by (simp add: fill_int16_nth times_32768_def ToInt16_def)
  also have "\<dots> = js_truncate (x * 32768)"
    using truncate_in_range [OF assms(3,4)] by (simp add: sint_word_of_int_16)
  finally show ?thesis .
qed

lemma roundtrip_close:
  assumes "i < length samples" and "samples ! i = Finite x" and "- 1 \<le> x" and "x < 1"
  shows "\<bar>inverse_scale (int16_at (pcm_bytes samples) i) - x\<bar> < 1 / 32768"
proof -
  have "\<bar>real_of_int (js_truncate (x * 32768)) - x * 32768\<bar> < 1"
    by (rule truncate_close)
  then have "\<bar>real_of_int (js_truncate (x * 32768)) / 32768 - x\<bar> < 1 / 32768"
    by (simp add: abs_less_iff field_simps)
  then show ?thesis
    by (simp add: inverse_scale_def int16_at_pcm_bytes [OF assms])
qed

lemma truncate_half: "js_truncate (0.5 * 32768) = 16384"
  by (simp add: js_truncate_def)

lemma scheduled_append: "scheduled (es @ fs) = scheduled es @ scheduled fs"
  by (induction es rule: scheduled.induct) simp_all

lemma connected_session_eq:
  "connected_session =
     \<lparr>sessionPromise = Some (Fulfilled 1), inputAudioContext = Some 2, outputAudioContext = Some 0,
      nextStartTime = 0, audioSources = [], next_id = 4,
      trace = [NewAudioContext 0 24000, LiveConnect 1, NewAudioContext 2 16000, GetUserMedia 3,
               StartCapture 2 3, CallOnOpen],
      decoding = [], parked_disconnects = 0\<rparr>"
  by (simp add: connected_session_def settle_def onopen_def connect_def initial_def emit_def Let_def)

lemma base64Audio_audio_message: "base64Audio (audio_message b64) = Inr (Some b64)"
  by (simp add: audio_message_def base64Audio_def)

lemma playing_session_eq:
  "playing_session =
     \<lparr>sessionPromise = Some (Fulfilled 1), inputAudioContext = Some 2, outputAudioContext = Some 0,
      nextStartTime = 0.5, audioSources = [4], next_id = 5,
      trace = [NewAudioContext 0 24000, LiveConnect 1, NewAudioContext 2 16000, GetUserMedia 3,
               StartCapture 2 3, CallOnOpen, CallOnMessage (audio_message ''AAAA''),
               SourceStart 4 0 0.5],
      decoding = [], parked_disconnects = 0\<rparr>"
  by (simp add: playing_session_def connected_session_eq onmessage_unfold handleAudio_unfold
      base64Audio_audio_message emit_def Let_def set_add_def)
    (simp add: audio_message_def)

lemma length_plan: "length (plan c xs) = length xs"
  by (induction c xs rule: plan.induct) simp_all

lemma plan_snd: "i < length xs \<Longrightarrow> snd (plan c xs ! i) = snd (xs ! i)"
  by (induction c xs arbitrary: i rule: plan.induct) (simp_all add: nth_Cons split: nat.splits)

lemma plan_first: "xs \<noteq> [] \<Longrightarrow> fst (plan c xs ! 0) = max c (fst (xs ! 0))"
  by (cases xs) auto

lemma plan_step:
  "Suc i < length xs \<Longrightarrow>
     fst (plan c xs ! Suc i) = max (fst (plan c xs ! i) + snd (plan c xs ! i)) (fst (xs ! Suc i))"
proof (induction c xs arbitrary: i rule: plan.induct)
  case (1 cursor)
  then show ?case by simp
next
  case (2 cursor now d rest)
  show ?case
  proof (cases i)
    case 0
    with 2 show ?thesis by (cases rest) auto
  next
    case (Suc j)
    with 2 show ?thesis by simp
  qed
qed

lemma plan_lower: "\<forall>x \<in> set xs. 0 \<le> snd x \<Longrightarrow> \<forall>p \<in> set (plan c xs). c \<le> fst p"
proof (induction c xs rule: plan.induct)
  case (1 cursor)
  then show ?case by simp
next
  case (2 cursor now d rest)
  then have "\<forall>p \<in> set (plan (max cursor now + d) rest). max cursor now + d \<le> fst p"
    by simp
  moreover from 2 have "0 \<le> d" by simp
  ultimately show ?case by (auto simp add: max_def split: if_splits)
qed

lemma plan_sorted: "\<forall>x \<in> set xs. 0 \<le> snd x \<Longrightarrow> sorted (map fst (plan c xs))"
proof (induction c xs rule: plan.induct)
  case (1 cursor)
  then show ?case by simp
next
  case (2 cursor now d rest)
  then have d: "0 \<le> d" and r: "\<forall>x \<in> set rest. 0 \<le> snd x" by simp_all
  from plan_lower [OF r, of "max cursor now + d"] d
  have "\<forall>p \<in> set (plan (max cursor now + d) rest). max cursor now \<le> fst p"
    by fastforce
  with 2 r show ?case by simp
qed

lemma plays_audio_message:
  "carries_audio (audio_message b64) = (b64 \<noteq> [])"
  "is_interruption (audio_message b64) = False"
  by (simp_all add: carries_audio_def base64Audio_audio_message is_interruption_def)
    (simp add: audio_message_def)

lemma created_contexts_append:
  "created_contexts (es @ fs) = created_contexts es @ created_contexts fs"
  by (induction es rule: created_contexts.induct) simp_all

lemma opened_transports_append:
  "opened_transports (es @ fs) = opened_transports es @ opened_transports fs"
  by (induction es rule: opened_transports.induct) simp_all

lemma acquired_microphones_append:
  "acquired_microphones (es @ fs) = acquired_microphones es @ acquired_microphones fs"
  by (induction es rule: acquired_microphones.induct) simp_all

lemma created_contexts_stops [simp]: "created_contexts (map SourceStop xs) = []"
  by (induction xs) simp_all

lemma opened_transports_stops [simp]: "opened_transports (map SourceStop xs) = []"
  by (induction xs) simp_all

lemma acquired_microphones_stops [simp]: "acquired_microphones (map SourceStop xs) = []"
  by (induction xs) simp_all

lemma close_context_fields:
  "sessionPromise (close_context c s) = sessionPromise s"
  "inputAudioContext (close_context c s) = inputAudioContext s"
  "outputAudioContext (close_context c s) = outputAudioContext s"
  "nextStartTime (close_context c s) = nextStartTime s"
  "audioSources (close_context c s) = audioSources s"
  "next_id (close_context c s) = next_id s"
  "decoding (close_context c s) = decoding s"
  "parked_disconnects (close_context c s) = parked_disconnects s"
  "trace (close_context c s) = trace s @ (case c of None \<Rightarrow> [] | Some x \<Rightarrow> [ContextClose x])"
  by (simp_all add: close_context_def emit_def split: option.splits)

lemma teardown_fields:
  "sessionPromise (teardown s) = None"
  "inputAudioContext (teardown s) = inputAudioContext s"
  "outputAudioContext (teardown s) = outputAudioContext s"
  "nextStartTime (teardown s) = 0"
  "audioSources (teardown s) = []"
  "next_id (teardown s) = next_id s"
  "decoding (teardown s) = decoding s"
  "parked_disconnects (teardown s) = parked_disconnects s"
  "trace (teardown s) =
     trace s @ (case inputAudioContext s of None \<Rightarrow> [] | Some x \<Rightarrow> [ContextClose x])
             @ (case outputAudioContext s of None \<Rightarrow> [] | Some x \<Rightarrow> [ContextClose x])
             @ map SourceStop (audioSources s)"
  by (simp_all add: teardown_def Let_def interruptAudio_fields close_context_fields)

lemma teardown_again:
  "held_contexts (teardown (teardown s)) = held_contexts (teardown s)"
  "held_transports (teardown (teardown s)) = held_transports (teardown s)"
  by (auto simp add: held_contexts_def held_transports_def teardown_fields
      created_contexts_append opened_transports_append split: option.splits intro!: filter_cong)

lemma connecting_eq:
  "snd (connect True initial) =
     \<lparr>sessionPromise = Some (Pending 1), inputAudioContext = None, outputAudioContext = Some 0,
      nextStartTime = 0, audioSources = [], next_id = 2,
      trace = [NewAudioContext 0 24000, LiveConnect 1],
      decoding = [], parked_disconnects = 0\<rparr>"
  by (simp add: connect_def initial_def emit_def Let_def)

lemma connect_onopen_trace:
  assumes "sessionPromise s = None"
  shows "snd (onopen True (snd (connect True s))) =
     s\<lparr>sessionPromise := Some (Pending (next_id s + 1)),
       inputAudioContext := Some (next_id s + 2),
       outputAudioContext := Some (next_id s),
       next_id := next_id s + 4,
       trace := trace s @ [NewAudioContext (next_id s) 24000, LiveConnect (next_id s + 1),
          NewAudioContext (next_id s + 2) 16000, GetUserMedia (next_id s + 3),
          StartCapture (next_id s + 2) (next_id s + 3), CallOnOpen]\<rparr>"
  using assms by (simp add: connect_def onopen_def emit_def Let_def)

lemma interrupted_check_fields:
  "sessionPromise (interrupted_check m s) = sessionPromise s"
  "inputAudioContext (interrupted_check m s) = inputAudioContext s"
  "outputAudioContext (interrupted_check m s) = outputAudioContext s"
  "next_id (interrupted_check m s) = next_id s"
  "decoding (interrupted_check m s) = decoding s"
  "parked_disconnects (interrupted_check m s) = parked_disconnects s"
  by (simp_all add: interrupted_check_def interruptAudio_fields split: option.splits)

lemma onmessage_begin_sessionPromise:
  "sessionPromise (snd (onmessage_begin m now s)) = sessionPromise s"
  by (simp add: onmessage_begin_def handleAudio_begin_def emit_def interrupted_check_fields
      split: option.splits sum.splits)

lemma onmessage_resume_sessionPromise:
  "sessionPromise (snd (onmessage_resume k decoded s)) = sessionPromise s"
  by (simp add: onmessage_resume_def handleAudio_resume_def emit_def Let_def
      interrupted_check_fields split: sum.splits)

lemma resume_disconnects_sessionPromise:
  "sessionPromise (resume_disconnects n t s) = (if n = 0 then sessionPromise s else None)"
  by (induction n arbitrary: s) (simp_all add: teardown_fields)

lemma resume_disconnects_fields:
  "inputAudioContext (resume_disconnects n t s) = inputAudioContext s"
  "outputAudioContext (resume_disconnects n t s) = outputAudioContext s"
  "next_id (resume_disconnects n t s) = next_id s"
  "decoding (resume_disconnects n t s) = decoding s"
  "parked_disconnects (resume_disconnects n t s) = parked_disconnects s"
  by (induction n arbitrary: s) (simp_all add: teardown_fields emit_def)

lemma disconnect_closes_output:
  assumes "outputAudioContext s = Some c"
    and "sessionPromise s = None \<or> sessionPromise s = Some (Fulfilled t)"
  shows "c \<notin> set (held_contexts (snd (disconnect s)))"
  using assms by (auto simp add: disconnect_def held_contexts_def teardown_fields emit_def)

lemma step_promise_needs_client:
  assumes "sessionPromise s \<noteq> None \<longrightarrow> ai"
  shows "sessionPromise (step ai e s) \<noteq> None \<longrightarrow> ai"
proof (cases e)
  case Connect
  with assms show ?thesis by (auto simp add: connect_def emit_def Let_def)
next
  case (Open granted)
  with assms show ?thesis by (auto simp add: onopen_def emit_def Let_def)
next
  case (Settle ok)
  with assms show ?thesis
    using resume_disconnects_sessionPromise [of "parked_disconnects s"]
    by (auto simp add: settle_def Let_def split: option.splits promise.splits)
next
  case (Arrive m now)
  with assms show ?thesis by (simp add: onmessage_begin_sessionPromise)
next
  case (Decoded k decoded)
  with assms show ?thesis by (simp add: onmessage_resume_sessionPromise)
next
  case (Ended source)
  with assms show ?thesis by (simp add: ended_def)
next
  case TransportError
  with assms show ?thesis by (simp add: onerror_def emit_def)
next
  case TransportClose
  with assms show ?thesis by (simp add: onclose_def emit_def)
next
  case Disconnect
  with assms show ?thesis
    by (auto simp add: disconnect_def teardown_fields split: option.splits promise.splits)
qed

lemma run_promise_needs_client:
  "sessionPromise s \<noteq> None \<longrightarrow> ai \<Longrightarrow> sessionPromise (run ai es s) \<noteq> None \<longrightarrow> ai"
proof (induction es arbitrary: s)
  case Nil
  then show ?case by simp
next
  case (Cons e es)
  from Cons.IH [OF step_promise_needs_client [OF Cons.prems]] show ?case by simp
qed

lemma reachable_promise_client: "sessionPromise (run ai es initial) \<noteq> None \<Longrightarrow> ai"
  using run_promise_needs_client [of initial ai es] by (simp add: initial_def)

lemma onmessage_split:
  "onmessage m now decoded s =
     (case onmessage_begin m now s of
        (Suspended, s1) \<Rightarrow> onmessage_resume (length (decoding s)) decoded s1
      | (out, s1) \<Rightarrow> (out, s1))"
  by (simp add: onmessage_def onmessage_begin_def onmessage_resume_def handleAudio_def
      handleAudio_begin_def emit_def Let_def
      split: option.splits sum.splits prod.splits outcome.splits)

lemma onmessage_begin_decoding:
  "decoding (snd (onmessage_begin m now s)) =
     (if fst (onmessage_begin m now s) = Suspended then decoding s @ [m] else decoding s)"
  by (simp add: onmessage_begin_def handleAudio_begin_def emit_def interrupted_check_fields
      split: option.splits sum.splits)

lemma run_append: "run ai (es @ fs) s = run ai fs (run ai es s)"
  by (induction es arbitrary: s) simp_all

lemma arrive_then_decoded:
  assumes "decoding s = []"
  shows "run ai [Arrive m now, Decoded 0 decoded] s = snd (onmessage m now decoded s)"
proof (cases "fst (onmessage_begin m now s) = Suspended")
  case True
  then show ?thesis
    using assms by (cases "onmessage_begin m now s") (simp add: onmessage_split)
next
  case False
  with assms have "decoding (snd (onmessage_begin m now s)) = []"
    by (simp add: onmessage_begin_decoding)
  with False show ?thesis
    by (cases "onmessage_begin m now s")
      (auto simp add: onmessage_split onmessage_resume_def split: outcome.splits)
qed

lemma onmessage_decoding: "decoding (snd (onmessage m now decoded s)) = decoding s"
  by (simp add: onmessage_def handleAudio_unfold emit_def Let_def interrupted_check_fields
      split: option.splits sum.splits)

lemma interrupted_check_audio_message: "interrupted_check (audio_message b) s = s"
  by (simp add: interrupted_check_def audio_message_def)

lemma arrive_audio:
  assumes "outputAudioContext s = Some c" and "b \<noteq> []"
  shows "onmessage_begin (audio_message b) now s =
     (Suspended, s\<lparr>trace := trace s @ [CallOnMessage (audio_message b)],
       nextStartTime := max (nextStartTime s) now,
       decoding := decoding s @ [audio_message b]\<rparr>)"
  using assms
  by (simp add: onmessage_begin_def handleAudio_begin_def base64Audio_audio_message emit_def)

lemma decoded_audio:
  assumes "decoding s = audio_message b # rest"
  shows "onmessage_resume 0 (Inr buf) s =
     (Returned, s\<lparr>decoding := rest, next_id := next_id s + 1,
       trace := trace s @ [SourceStart (next_id s) (nextStartTime s) (duration buf)],
       nextStartTime := nextStartTime s + duration buf,
       audioSources := set_add (next_id s) (audioSources s)\<rparr>)"
  using assms
  by (simp add: onmessage_resume_def handleAudio_resume_def emit_def Let_def
      interrupted_check_audio_message)

lemma interrupted_check_flushes:
  assumes "is_interruption m"
  shows "interrupted_check m s = interruptAudio s"
  using assms by (simp add: interrupted_check_def is_interruption_def split: option.splits)

lemma handleAudio_begin_Returned:
  "fst (handleAudio_begin m now s) = Returned \<Longrightarrow> snd (handleAudio_begin m now s) = s"
  by (simp add: handleAudio_begin_def split: option.splits sum.splits if_splits)

lemma handleAudio_resume_audioSources:
  "fst (handleAudio_resume decoded s) = Returned \<Longrightarrow>
     set (audioSources s) \<subseteq> set (audioSources (snd (handleAudio_resume decoded s)))"
  by (auto simp add: handleAudio_resume_def emit_def Let_def set_add_def split: sum.splits)

lemma arrive_interruption:
  "onmessage_begin interruption_message now s
     = (Returned, interruptAudio (emit (CallOnMessage interruption_message) s))"
  by (simp add: onmessage_begin_def handleAudio_begin_def base64Audio_def interruption_message_def
      interrupted_check_def split: option.splits)

lemma resume_disconnects_flushed:
  "audioSources (resume_disconnects n t s) = (if n = 0 then audioSources s else [])"
  "nextStartTime (resume_disconnects n t s) = (if n = 0 then nextStartTime s else 0)"
  by (induction n arbitrary: s) (simp_all add: teardown_fields)

lemma teardown_trace_mono: "set (trace s) \<subseteq> set (trace (teardown s))"
  by (auto simp add: teardown_fields)

lemma resume_disconnects_trace_mono: "set (trace s) \<subseteq> set (trace (resume_disconnects n t s))"
proof (induction n arbitrary: s)
  case 0
  then show ?case by simp
next
  case (Suc n)
  have "set (trace s) \<subseteq> set (trace (teardown (emit (SessionClose t) s)))"
    using teardown_trace_mono [of "emit (SessionClose t) s"] by (auto simp add: emit_def)
  also have "\<dots> \<subseteq> set (trace (resume_disconnects n t (teardown (emit (SessionClose t) s))))"
    by (rule Suc.IH)
  finally show ?case by simp
qed

lemma settle_parked:
  assumes "sessionPromise s = Some (Pending t)" and "0 < parked_disconnects s"
  shows "sessionPromise (settle True s) = None"
    and "audioSources (settle True s) = []"
    and "nextStartTime (settle True s) = 0"
    and "parked_disconnects (settle True s) = 0"
    and "\<forall>source \<in> set (audioSources s). SourceStop source \<in> set (trace (settle True s))"
    and "t \<notin> set (held_transports (settle True s))"
    and "\<forall>c. inputAudioContext s = Some c \<or> outputAudioContext s = Some c \<longrightarrow>
           c \<notin> set (held_contexts (settle True s))"
proof -
  from assms(2) obtain n where n: "parked_disconnects s = Suc n"
    by (cases "parked_disconnects s") simp_all
  let ?s1 = "s\<lparr>sessionPromise := Some (Fulfilled t), parked_disconnects := 0\<rparr>"
  let ?s2 = "teardown (emit (SessionClose t) ?s1)"
  have eq: "settle True s = resume_disconnects n t ?s2"
    using assms(1) n by (simp add: settle_def)
  have sub: "set (trace ?s2) \<subseteq> set (trace (settle True s))"
    unfolding eq by (rule resume_disconnects_trace_mono)
  show "sessionPromise (settle True s) = None"
    by (simp add: eq resume_disconnects_sessionPromise teardown_fields)
  show "audioSources (settle True s) = []"
    by (simp add: eq resume_disconnects_flushed teardown_fields)
  show "nextStartTime (settle True s) = 0"
    by (simp add: eq resume_disconnects_flushed teardown_fields)
  show "parked_disconnects (settle True s) = 0"
    by (simp add: eq resume_disconnects_fields teardown_fields emit_def)
  show "\<forall>source \<in> set (audioSources s). SourceStop source \<in> set (trace (settle True s))"
    using sub by (auto simp add: teardown_fields emit_def)
  have "SessionClose t \<in> set (trace (settle True s))"
    using sub by (auto simp add: teardown_fields emit_def)
  then show "t \<notin> set (held_transports (settle True s))"
    by (simp add: held_transports_def)
  have "ContextClose c \<in> set (trace (settle True s))"
    if "inputAudioContext s = Some c \<or> outputAudioContext s = Some c" for c
    using sub that by (auto simp add: teardown_fields emit_def)
  then show "\<forall>c. inputAudioContext s = Some c \<or> outputAudioContext s = Some c \<longrightarrow>
           c \<notin> set (held_contexts (settle True s))"
    by (simp add: held_contexts_def)
qed

lemma step_keeps_parked:
  assumes "sessionPromise s = Some (Pending t)" and "\<forall>ok. e \<noteq> Settle ok"
  shows "sessionPromise (step ai e s) = Some (Pending t)
    \<and> parked_disconnects s \<le> parked_disconnects (step ai e s)"
proof (cases e)
  case Connect
  with assms show ?thesis by (simp add: connect_def)
next
  case (Open granted)
  with assms show ?thesis by (simp add: onopen_def emit_def Let_def)
next
  case (Settle ok)
  with assms(2) show ?thesis by blast
next
  case (Arrive m now)
  with assms show ?thesis
    by (simp add: onmessage_begin_sessionPromise)
      (simp add: onmessage_begin_def handleAudio_begin_def emit_def interrupted_check_fields
        split: option.splits sum.splits)
next
  case (Decoded k decoded)
  with assms show ?thesis
    by (simp add: onmessage_resume_sessionPromise)
      (simp add: onmessage_resume_def handleAudio_resume_def emit_def Let_def
        interrupted_check_fields split: sum.splits)
next
  case (Ended source)
  with assms show ?thesis by (simp add: ended_def)
next
  case TransportError
  with assms show ?thesis by (simp add: onerror_def emit_def)
next
  case TransportClose
  with assms show ?thesis by (simp add: onclose_def emit_def)
next
  case Disconnect
  with assms show ?thesis by (simp add: disconnect_def)
qed

lemma parked_eq:
  "snd (disconnect (snd (connect True initial))) =
     \<lparr>sessionPromise = Some (Pending 1), inputAudioContext = None, outputAudioContext = Some 0,
      nextStartTime = 0, audioSources = [], next_id = 2,
      trace = [NewAudioContext 0 24000, LiveConnect 1],
      decoding = [], parked_disconnects = 1\<rparr>"
  by (simp add: connecting_eq disconnect_def)

lemma no_overlap_Cons:
  "no_overlap xs \<Longrightarrow> \<forall>p \<in> set xs. fst x + snd x \<le> fst p \<Longrightarrow> no_overlap (x # xs)"
  by (cases xs) simp_all

lemma no_overlap_nth:
  "no_overlap xs \<Longrightarrow> Suc i < length xs \<Longrightarrow> fst (xs ! i) + snd (xs ! i) \<le> fst (xs ! Suc i)"
proof (induction xs arbitrary: i rule: no_overlap.induct)
  case 1
  then show ?case by simp
next
  case (2 x)
  then show ?case by simp
next
  case (3 x y rest)
  then show ?case by (cases i) simp_all
qed

lemma interrupted_check_quiet: "\<not> is_interruption m \<Longrightarrow> interrupted_check m s = s"
  by (simp add: interrupted_check_def is_interruption_def split: option.splits)

lemma step_schedule:
  assumes "no_flush e" and "\<forall>m \<in> set (decoding s). \<not> is_interruption m"
  shows "(\<forall>m \<in> set (decoding (step ai e s)). \<not> is_interruption m)
    \<and> ((scheduled (trace (step ai e s)) = scheduled (trace s)
         \<and> nextStartTime s \<le> nextStartTime (step ai e s))
       \<or> (\<exists>d. 0 \<le> d
             \<and> scheduled (trace (step ai e s)) = scheduled (trace s) @ [(nextStartTime s, d)]
             \<and> nextStartTime (step ai e s) = nextStartTime s + d))"
proof (cases e)
  case Connect
  with assms show ?thesis by (simp add: connect_def emit_def Let_def scheduled_append)
next
  case (Open granted)
  with assms show ?thesis by (simp add: onopen_def emit_def Let_def scheduled_append)
next
  case (Settle ok)
  with assms show ?thesis by simp
next
  case (Arrive m now)
  with assms have q: "\<not> is_interruption m" by simp
  show ?thesis
    using assms(2)
    by (simp add: Arrive onmessage_begin_def handleAudio_begin_def emit_def scheduled_append
        interrupted_check_quiet [OF q] q split: option.splits sum.splits)
next
  case (Decoded k decoded)
  show ?thesis
  proof (cases "length (decoding s) \<le> k")
    case True
    with assms show ?thesis by (simp add: Decoded onmessage_resume_def)
  next
    case False
    then have k: "k < length (decoding s)" by simp
    with assms(2) have q: "\<not> is_interruption (decoding s ! k)" by simp
    have sub: "set (take k (decoding s) @ drop (Suc k) (decoding s)) \<subseteq> set (decoding s)"
      using set_take_subset [of k "decoding s"] set_drop_subset [of "Suc k" "decoding s"] by auto
    show ?thesis
    proof (cases decoded)
      case (Inl err)
      with k sub assms(2) show ?thesis
        by (auto simp add: Decoded onmessage_resume_def handleAudio_resume_def Let_def)
    next
      case (Inr buf)
      with assms(1) Decoded have d: "0 \<le> duration buf" by simp
      from k sub assms(2) d show ?thesis
        by (auto simp add: Decoded Inr onmessage_resume_def handleAudio_resume_def Let_def emit_def
            scheduled_append interrupted_check_quiet [OF q])
    qed
  qed
next
  case (Ended source)
  with assms show ?thesis by (simp add: ended_def)
next
  case TransportError
  with assms show ?thesis by (simp add: onerror_def emit_def scheduled_append)
next
  case TransportClose
  with assms show ?thesis by (simp add: onclose_def emit_def scheduled_append)
next
  case Disconnect
  with assms show ?thesis by simp
qed

lemma run_schedule:
  assumes "\<forall>e \<in> set es. no_flush e" and "\<forall>m \<in> set (decoding s). \<not> is_interruption m"
  shows "\<exists>new. scheduled (trace (run ai es s)) = scheduled (trace s) @ new
    \<and> no_overlap new
    \<and> (\<forall>p \<in> set new. nextStartTime s \<le> fst p \<and> 0 \<le> snd p)
    \<and> nextStartTime s \<le> nextStartTime (run ai es s)"
  using assms
proof (induction es arbitrary: s)
  case Nil
  then show ?case by simp
next
  case (Cons e es)
  let ?s1 = "step ai e s"
  from Cons.prems have e: "no_flush e" and es: "\<forall>e \<in> set es. no_flush e" by simp_all
  note st = step_schedule [OF e Cons.prems(2), of ai]
  then have q1: "\<forall>m \<in> set (decoding ?s1). \<not> is_interruption m" by blast
  from Cons.IH [OF es q1] obtain new2 where
    n2: "scheduled (trace (run ai es ?s1)) = scheduled (trace ?s1) @ new2"
      "no_overlap new2" "\<forall>p \<in> set new2. nextStartTime ?s1 \<le> fst p \<and> 0 \<le> snd p"
      "nextStartTime ?s1 \<le> nextStartTime (run ai es ?s1)"
    by blast
  from st consider
      (same) "scheduled (trace ?s1) = scheduled (trace s)" "nextStartTime s \<le> nextStartTime ?s1"
    | (play) d where "0 \<le> d" "scheduled (trace ?s1) = scheduled (trace s) @ [(nextStartTime s, d)]"
        "nextStartTime ?s1 = nextStartTime s + d"
    by blast
  then show ?case
  proof cases
    case same
    with n2 have "scheduled (trace (run ai (e # es) s)) = scheduled (trace s) @ new2
      \<and> no_overlap new2
      \<and> (\<forall>p \<in> set new2. nextStartTime s \<le> fst p \<and> 0 \<le> snd p)
      \<and> nextStartTime s \<le> nextStartTime (run ai (e # es) s)"
      by fastforce
    then show ?thesis by blast
  next
    case play
    let ?new = "(nextStartTime s, d) # new2"
    from play n2(3) have "\<forall>p \<in> set new2. fst (nextStartTime s, d) + snd (nextStartTime s, d) \<le> fst p"
      by simp
    with n2(2) have no: "no_overlap ?new" by (rule no_overlap_Cons)
    from play n2 have "scheduled (trace (run ai (e # es) s)) = scheduled (trace s) @ ?new
      \<and> (\<forall>p \<in> set ?new. nextStartTime s \<le> fst p \<and> 0 \<le> snd p)
      \<and> nextStartTime s \<le> nextStartTime (run ai (e # es) s)"
      by fastforce
    with no show ?thesis by blast
  qed
qed

lemma newly_scheduled_append:
  "scheduled (trace s') = scheduled (trace s) @ new \<Longrightarrow> newly_scheduled s s' = new"
  by (simp add: newly_scheduled_def)

lemma run_no_overlap:
  assumes "\<forall>e \<in> set es. no_flush e" and "\<forall>m \<in> set (decoding s). \<not> is_interruption m"
  shows "no_overlap (newly_scheduled s (run ai es s))"
    and "\<forall>p \<in> set (newly_scheduled s (run ai es s)). nextStartTime s \<le> fst p \<and> 0 \<le> snd p"
  using run_schedule [OF assms, of ai] by (auto simp add: newly_scheduled_append)

lemma no_overlap_sorted:
  assumes "no_overlap xs" and "\<forall>p \<in> set xs. 0 \<le> snd p"
  shows "sorted (map fst xs)"
proof -
  have "map fst xs ! i \<le> map fst xs ! Suc i" if "Suc i < length (map fst xs)" for i
  proof -
    from that have i: "Suc i < length xs" by simp
    from no_overlap_nth [OF assms(1) i] have "fst (xs ! i) + snd (xs ! i) \<le> fst (xs ! Suc i)" .
    moreover from assms(2) i have "0 \<le> snd (xs ! i)" by simp
    ultimately show ?thesis using i by simp
  qed
  then show ?thesis by (simp only: sorted_iff_nth_Suc) blast
qed

lemma plan_raise: "\<forall>x \<in> set xs. a \<le> fst x \<Longrightarrow> plan (max c a) xs = plan c xs"
  by (cases xs) (auto simp add: max_def)

lemma onmessage_delivery:
  assumes "outputAudioContext s \<noteq> None" and "\<not> is_interruption m" and "0 \<le> duration_of (m, now, decoded)"
  shows "outputAudioContext (snd (onmessage m now decoded s)) = outputAudioContext s"
    and "plays (m, now, decoded) \<Longrightarrow>
           scheduled (trace (snd (onmessage m now decoded s)))
             = scheduled (trace s) @ [(max (nextStartTime s) now, duration_of (m, now, decoded))]
           \<and> nextStartTime (snd (onmessage m now decoded s))
             = max (nextStartTime s) now + duration_of (m, now, decoded)"
    and "\<not> plays (m, now, decoded) \<Longrightarrow>
           scheduled (trace (snd (onmessage m now decoded s))) = scheduled (trace s)
           \<and> (nextStartTime (snd (onmessage m now decoded s)) = nextStartTime s
              \<or> nextStartTime (snd (onmessage m now decoded s)) = max (nextStartTime s) now)"
  using assms
  by (cases decoded; auto simp add: onmessage_def handleAudio_unfold carries_audio_def
      interrupted_check_quiet emit_def Let_def scheduled_append split: option.splits sum.splits)+

lemma one_at_a_time_plan:
  assumes "outputAudioContext s \<noteq> None" and "decoding s = []"
    and "\<forall>ev \<in> set evs. \<not> is_interruption (fst ev) \<and> 0 \<le> duration_of ev"
    and "sorted (map clock_of evs)"
  shows "scheduled (trace (run ai (one_at_a_time evs) s))
       = scheduled (trace s)
         @ plan (nextStartTime s) (map (\<lambda>ev. (clock_of ev, duration_of ev)) (filter plays evs))"
  using assms
proof (induction evs arbitrary: s)
  case Nil
  then show ?case by simp
next
  case (Cons ev evs)
  obtain m now decoded where ev: "ev = (m, now, decoded)" by (cases ev)
  let ?s1 = "snd (onmessage m now decoded s)"
  let ?rest = "map (\<lambda>ev. (clock_of ev, duration_of ev)) (filter plays evs)"
  from Cons.prems have q: "\<not> is_interruption m" and d: "0 \<le> duration_of (m, now, decoded)"
    and rest: "\<forall>ev \<in> set evs. \<not> is_interruption (fst ev) \<and> 0 \<le> duration_of ev"
    and srt: "sorted (map clock_of evs)" and later: "\<forall>ev \<in> set evs. now \<le> clock_of ev"
    by (simp_all add: ev)
  note od = onmessage_delivery [OF Cons.prems(1) q d]
  have r: "run ai (one_at_a_time (ev # evs)) s = run ai (one_at_a_time evs) ?s1"
    using arrive_then_decoded [OF Cons.prems(2), of ai m now decoded] by (simp add: ev)
  have c1: "outputAudioContext ?s1 \<noteq> None" using od(1) Cons.prems(1) by simp
  have d1: "decoding ?s1 = []" using Cons.prems(2) by (simp add: onmessage_decoding)
  note ih = Cons.IH [OF c1 d1 rest srt]
  show ?case
  proof (cases "plays (m, now, decoded)")
    case True
    with od(2) ih show ?thesis unfolding r by (simp add: ev)
  next
    case False
    from later have "\<forall>x \<in> set ?rest. now \<le> fst x" by auto
    then have "plan (max (nextStartTime s) now) ?rest = plan (nextStartTime s) ?rest"
      by (rule plan_raise)
    with od(3) [OF False] ih False show ?thesis unfolding r by (auto simp add: ev)
  qed
qed

lemma plays_transcript_message:
  "carries_audio transcript_message = False" "is_interruption transcript_message = False"
  by (simp_all add: carries_audio_def base64Audio_def is_interruption_def transcript_message_def)

subsection \<open>Connecting\<close>

text \<open>
  C10. When the API key was not configured at module load (the client \<open>ai\<close> is undefined),
  \<open>connect\<close> throws the error with message "API key not configured." and the state is
  exactly what it was: no output context is created, no session promise is set, no device is
  acquired and no transport is opened (the trace is unchanged too).
\<close>

theorem connect_api_key_not_configured:
  "connect False s = (Threw (Error ''API key not configured.''), s)"
  by (simp add: connect_def)

text \<open>
  C9. When the session promise already exists, \<open>connect\<close> leaves the state as it is: no
  second transport, no further device, nothing in the trace; with the client configured it
  returns normally. In every state the session can reach from its initial one, a session
  promise exists only when the client is configured, so there \<open>connect\<close> with a promise in
  place returns normally with the state unchanged and nothing is surfaced to the caller.
\<close>

theorem connect_in_flight_noop:
  "(sessionPromise s \<noteq> None \<longrightarrow> snd (connect ai s) = s \<and> (ai \<longrightarrow> connect ai s = (Returned, s)))
   \<and> (sessionPromise (run ai es initial) \<noteq> None \<longrightarrow>
        connect ai (run ai es initial) = (Returned, run ai es initial))"
proof -
  have "connect ai (run ai es initial) = (Returned, run ai es initial)"
    if "sessionPromise (run ai es initial) \<noteq> None"
    using that reachable_promise_client [OF that] by (simp add: connect_def)
  then show ?thesis by (simp add: connect_def)
qed

theorem connect_in_flight_noop_witness:
  "sessionPromise (run True [Connect] initial) \<noteq> None
   \<and> connect True (run True [Connect] initial) = (Returned, run True [Connect] initial)
   \<and> trace (run True [Connect, Connect] initial) = [NewAudioContext 0 24000, LiveConnect 1]"
proof -
  have h: "sessionPromise (run True [Connect] initial) \<noteq> None"
    by (simp add: connecting_eq)
  from connect_in_flight_noop [of "run True [Connect] initial" True "[Connect]"] h
  have a: "connect True (run True [Connect] initial) = (Returned, run True [Connect] initial)"
    by blast
  then have "run True [Connect, Connect] initial = run True [Connect] initial"
    by simp
  then have "trace (run True [Connect, Connect] initial) = [NewAudioContext 0 24000, LiveConnect 1]"
    by (simp add: connecting_eq)
  with h a show ?thesis by blast
qed

subsection \<open>Encoding\<close>

text \<open>
  C3, as the code has it. For every sample block of length N the chunk handed to \<open>encode\<close>
  has exactly 2N bytes; each finite sample x is scaled by 32768, truncated towards zero and
  stored as a 16-bit signed little-endian integer, and for \<open>-1 \<le> x < 1\<close> that integer is
  the truncated scaled value itself, from which inverse scaling recovers x within 1/32768. A
  block of 4096 samples all equal to 0.5 gives 8192 bytes in which every 16-bit value is 16384.
\<close>

theorem createPcmBlob_chunk:
  "data (createPcmBlob encode samples) = encode (pcm_bytes samples)
   \<and> length (pcm_bytes samples) = 2 * length samples
   \<and> (\<forall>i<length samples. \<forall>x. samples ! i = Finite x \<longrightarrow> - 1 \<le> x \<longrightarrow> x < 1 \<longrightarrow>
        int16_at (pcm_bytes samples) i = js_truncate (x * 32768)
        \<and> \<bar>inverse_scale (int16_at (pcm_bytes samples) i) - x\<bar> < 1 / 32768)
   \<and> length (pcm_bytes (replicate 4096 (Finite 0.5))) = 8192
   \<and> (\<forall>i<4096. int16_at (pcm_bytes (replicate 4096 (Finite 0.5))) i = 16384)"
proof -
  have a: "length (pcm_bytes xs) = 2 * length xs" for xs
    by (simp add: pcm_bytes_def length_Uint8Array_of length_fill_int16)
  have b: "int16_at (pcm_bytes (replicate 4096 (Finite 0.5))) i = 16384" if "i < 4096" for i
    using that int16_at_pcm_bytes [of i "replicate 4096 (Finite 0.5)" "0.5"] truncate_half
    by simp
  have c: "\<forall>i<length samples. \<forall>x. samples ! i = Finite x \<longrightarrow> - 1 \<le> x \<longrightarrow> x < 1 \<longrightarrow>
        int16_at (pcm_bytes samples) i = js_truncate (x * 32768)
        \<and> \<bar>inverse_scale (int16_at (pcm_bytes samples) i) - x\<bar> < 1 / 32768"
    using int16_at_pcm_bytes roundtrip_close by blast
  have d: "data (createPcmBlob encode samples) = encode (pcm_bytes samples)"
    by (simp add: createPcmBlob_def)
  have e: "length (pcm_bytes (replicate 4096 (Finite 0.5))) = 8192"
    by (simp add: a)
  from a [of samples] b c d e show ?thesis by blast
qed

theorem createPcmBlob_chunk_witness:
  "(1::nat) < length [Finite 0.5, Finite (- 0.25)]
   \<and> [Finite 0.5, Finite (- 0.25)] ! 1 = Finite (- 0.25)
   \<and> - 1 \<le> (- 0.25 :: real) \<and> (- 0.25 :: real) < 1
   \<and> length (pcm_bytes [Finite 0.5, Finite (- 0.25)]) = 4
   \<and> int16_at (pcm_bytes [Finite 0.5, Finite (- 0.25)]) 1 = - 8192
   \<and> \<bar>inverse_scale (int16_at (pcm_bytes [Finite 0.5, Finite (- 0.25)]) 1) - (- 0.25)\<bar> < 1 / 32768"
proof -
  let ?xs = "[Finite 0.5, Finite (- 0.25)]"
  have h1: "(1::nat) < length ?xs" by simp
  have h2: "?xs ! 1 = Finite (- 0.25)" by simp
  have h3: "- 1 \<le> (- 0.25 :: real)" by simp
  have h4: "(- 0.25 :: real) < 1" by simp
  have t: "js_truncate (- 0.25 * 32768) = - 8192"
    by (simp add: js_truncate_def)
  from createPcmBlob_chunk [of "\<lambda>bytes. []" ?xs]
  have len: "length (pcm_bytes ?xs) = 2 * length ?xs"
    and rt: "\<forall>i<length ?xs. \<forall>x. ?xs ! i = Finite x \<longrightarrow> - 1 \<le> x \<longrightarrow> x < 1 \<longrightarrow>
        int16_at (pcm_bytes ?xs) i = js_truncate (x * 32768)
        \<and> \<bar>inverse_scale (int16_at (pcm_bytes ?xs) i) - x\<bar> < 1 / 32768"
    by blast+
  from rt h1 h2 h3 h4
  have "int16_at (pcm_bytes ?xs) 1 = js_truncate (- 0.25 * 32768)
        \<and> \<bar>inverse_scale (int16_at (pcm_bytes ?xs) 1) - (- 0.25)\<bar> < 1 / 32768"
    by blast
  with t have "int16_at (pcm_bytes ?xs) 1 = - 8192
        \<and> \<bar>inverse_scale (int16_at (pcm_bytes ?xs) 1) - (- 0.25)\<bar> < 1 / 32768"
    by (simp add: inverse_scale_def)
  moreover from len have "length (pcm_bytes ?xs) = 4" by simp
  ultimately show ?thesis using h1 h2 h3 h4 by blast
qed

text \<open>
  C3 as stated fails at full scale: the sample 1.0 lies in the range [-1.0, 1.0], its scaled
  value 32768 wraps to -32768, and inverse scaling gives -1.0, which is 2 away from it.
\<close>

theorem createPcmBlob_full_scale_counterexample:
  "- 1 \<le> (1::real) \<and> (1::real) \<le> 1
   \<and> int16_at (pcm_bytes [Finite 1]) 0 = - 32768
   \<and> inverse_scale (int16_at (pcm_bytes [Finite 1]) 0) = - 1
   \<and> \<not> \<bar>inverse_scale (int16_at (pcm_bytes [Finite 1]) 0) - 1\<bar> \<le> 1 / 32768"
  by (simp add: pcm_bytes_def times_32768_def ToInt16_def js_truncate_def int16_at_def inverse_scale_def)

subsection \<open>Decode failure\<close>




subsection \<open>Transport errors\<close>

text \<open>
  C6, as the code has it. When the transport errors, the session's \<open>onerror\<close> is the caller's
  error callback and nothing more: the error is reported (the component moves to its error
  state), and the session promise, both audio contexts, the cursor, the live set, the transport
  and the microphone are all as before. Nothing is released until the caller invokes
  \<open>disconnect\<close>.
\<close>

theorem onerror_reports_and_releases_nothing:
  "trace (onerror s) = trace s @ [CallOnError]
   \<and> sessionPromise (onerror s) = sessionPromise s
   \<and> inputAudioContext (onerror s) = inputAudioContext s
   \<and> outputAudioContext (onerror s) = outputAudioContext s
   \<and> nextStartTime (onerror s) = nextStartTime s
   \<and> audioSources (onerror s) = audioSources s
   \<and> held_contexts (onerror s) = held_contexts s
   \<and> held_transports (onerror s) = held_transports s
   \<and> held_microphones (onerror s) = held_microphones s
   \<and> connectionState (SupportChatbot_onError cb) = error
   \<and> live (SupportChatbot_onError cb) = onerror (live cb)"
  by (auto simp add: onerror_def emit_def held_contexts_def held_transports_def held_microphones_def
      SupportChatbot_onError_def created_contexts_append opened_transports_append
      acquired_microphones_append intro!: filter_cong)

text \<open>
  C6 as stated fails: after an error in the connected session both audio contexts and the
  transport are still held, and so are the output context and the transport after an error
  while connecting.
\<close>

theorem onerror_counterexample:
  "held_contexts (onerror connected_session) = [0, 2]
   \<and> held_transports (onerror connected_session) = [1]
   \<and> held_contexts (onerror (snd (connect True initial))) = [0]
   \<and> held_transports (onerror (snd (connect True initial))) = [1]"
  by (simp add: connecting_eq connected_session_eq onerror_def emit_def held_contexts_def
      held_transports_def)

subsection \<open>Acquisitions\<close>

text \<open>
  C7, as the code has it. A \<open>connect\<close> of the session that goes through (client configured,
  no session promise yet) followed by the open event with the microphone granted creates
  exactly one output audio context and performs exactly one microphone acquisition; the
  component's own \<open>connect\<close> performs one more microphone acquisition before it calls the
  session's. The output context is closed by \<open>disconnect\<close> once the promise has resolved;
  the close and error events of the transport release no audio context.
\<close>

theorem connect_acquisitions:
  assumes "sessionPromise s = None"
  shows "fst (connect True s) = Returned \<and> fst (onopen True (snd (connect True s))) = Returned
    \<and> trace (snd (onopen True (snd (connect True s))))
        = trace s @ [NewAudioContext (next_id s) 24000, LiveConnect (next_id s + 1),
            NewAudioContext (next_id s + 2) 16000, GetUserMedia (next_id s + 3),
            StartCapture (next_id s + 2) (next_id s + 3), CallOnOpen]
    \<and> outputAudioContext (snd (onopen True (snd (connect True s)))) = Some (next_id s)
    \<and> acquired_microphones (trace (snd (onopen True (snd (connect True s)))))
        = acquired_microphones (trace s) @ [next_id s + 3]
    \<and> (\<not> liveChatSessionRef cb \<longrightarrow>
         acquired_microphones (trace (snd (onopen True (live (SupportChatbot_connect True True cb)))))
           = acquired_microphones (trace (live cb)) @ [next_id (live cb), next_id (live cb) + 4])
    \<and> next_id s \<notin> set (held_contexts (snd (disconnect (settle True (snd (onopen True (snd (connect True s))))))))
    \<and> held_contexts (onclose (snd (onopen True (snd (connect True s)))))
        = held_contexts (snd (onopen True (snd (connect True s))))
    \<and> held_contexts (onerror (snd (onopen True (snd (connect True s)))))
        = held_contexts (snd (onopen True (snd (connect True s))))"
proof -
  let ?s2 = "snd (onopen True (snd (connect True s)))"
  note eq = connect_onopen_trace [OF assms]
  have 1: "fst (connect True s) = Returned" "fst (onopen True (snd (connect True s))) = Returned"
    using assms by (simp_all add: connect_def onopen_def Let_def)
  have 2: "trace ?s2 = trace s @ [NewAudioContext (next_id s) 24000, LiveConnect (next_id s + 1),
            NewAudioContext (next_id s + 2) 16000, GetUserMedia (next_id s + 3),
            StartCapture (next_id s + 2) (next_id s + 3), CallOnOpen]"
    by (simp add: eq)
  have 3: "outputAudioContext ?s2 = Some (next_id s)"
    by (simp add: eq)
  have 4: "acquired_microphones (trace ?s2) = acquired_microphones (trace s) @ [next_id s + 3]"
    by (simp add: 2 acquired_microphones_append)
  have 5: "acquired_microphones (trace (snd (onopen True (live (SupportChatbot_connect True True cb)))))
           = acquired_microphones (trace (live cb)) @ [next_id (live cb), next_id (live cb) + 4]"
    if "\<not> liveChatSessionRef cb"
    using that
    by (simp add: SupportChatbot_connect_def new_LiveChatSession_def connect_def onopen_def
        emit_def Let_def acquired_microphones_append)
  have sp: "sessionPromise (settle True ?s2) = None
      \<or> sessionPromise (settle True ?s2) = Some (Fulfilled (next_id s + 1))"
    by (simp add: eq settle_def Let_def resume_disconnects_sessionPromise)
  have oc: "outputAudioContext (settle True ?s2) = Some (next_id s)"
    by (simp add: eq settle_def Let_def resume_disconnects_fields)
  have 6: "next_id s \<notin> set (held_contexts (snd (disconnect (settle True ?s2))))"
    by (rule disconnect_closes_output [OF oc sp])
  have 7: "held_contexts (onclose ?s2) = held_contexts ?s2"
    by (auto simp add: onclose_def emit_def held_contexts_def created_contexts_append intro!: filter_cong)
  have 8: "held_contexts (onerror ?s2) = held_contexts ?s2"
    by (auto simp add: onerror_def emit_def held_contexts_def created_contexts_append intro!: filter_cong)
  from 1 2 3 4 5 6 7 8 show ?thesis by blast
qed

theorem connect_acquisitions_witness:
  "sessionPromise initial = None
   \<and> \<not> liveChatSessionRef \<lparr>connectionState = disconnected, liveChatSessionRef = False, live = initial\<rparr>
   \<and> trace (snd (onopen True (snd (connect True initial))))
       = [NewAudioContext 0 24000, LiveConnect 1, NewAudioContext 2 16000, GetUserMedia 3,
          StartCapture 2 3, CallOnOpen]
   \<and> acquired_microphones (trace (snd (onopen True (snd (connect True initial))))) = [3]
   \<and> acquired_microphones (trace (snd (onopen True (live (SupportChatbot_connect True True
        \<lparr>connectionState = disconnected, liveChatSessionRef = False, live = initial\<rparr>))))) = [0, 4]
   \<and> 0 \<notin> set (held_contexts (snd (disconnect (settle True (snd (onopen True (snd (connect True initial))))))))"
proof -
  let ?cb = "\<lparr>connectionState = disconnected, liveChatSessionRef = False, live = initial\<rparr>"
  have h: "sessionPromise initial = None" by (simp add: initial_def)
  have r: "\<not> liveChatSessionRef ?cb" by simp
  have i: "trace initial = []" "next_id initial = 0" by (simp_all add: initial_def)
  from connect_acquisitions [OF h, of ?cb] r
  have a: "trace (snd (onopen True (snd (connect True initial))))
        = trace initial @ [NewAudioContext (next_id initial) 24000, LiveConnect (next_id initial + 1),
            NewAudioContext (next_id initial + 2) 16000, GetUserMedia (next_id initial + 3),
            StartCapture (next_id initial + 2) (next_id initial + 3), CallOnOpen]"
    and b: "acquired_microphones (trace (snd (onopen True (snd (connect True initial)))))
        = acquired_microphones (trace initial) @ [next_id initial + 3]"
    and c: "acquired_microphones (trace (snd (onopen True (live (SupportChatbot_connect True True ?cb)))))
           = acquired_microphones (trace (live ?cb)) @ [next_id (live ?cb), next_id (live ?cb) + 4]"
    and d: "next_id initial \<notin> set (held_contexts (snd (disconnect (settle True (snd (onopen True (snd (connect True initial))))))))"
    by blast+
  from a b c d i h r show ?thesis by simp
qed

text \<open>
  C7 as stated fails: through the component, one successful connect performs two microphone
  acquisitions, and after the transport's close event (as after its error event) the output
  context is still held.
\<close>

theorem connect_acquisitions_counterexample:
  "acquired_microphones (trace (snd (onopen True (live (SupportChatbot_connect True True
        \<lparr>connectionState = disconnected, liveChatSessionRef = False, live = initial\<rparr>))))) = [0, 4]
   \<and> held_contexts (onclose connected_session) = [0, 2]
   \<and> held_contexts (onerror connected_session) = [0, 2]"
  by (simp add: connected_session_eq onclose_def onerror_def emit_def held_contexts_def
      SupportChatbot_connect_def new_LiveChatSession_def connect_def onopen_def initial_def Let_def)

subsection \<open>Scheduling\<close>

text \<open>
  C1, as the code has it. For an inbound payload that the handler takes up (the output context
  exists, the message carries a non-empty audio string), the cursor is raised to the maximum of
  itself and the clock value the handler reads, and the handler waits for the decode. When the
  decode delivers a buffer, the source is started at the value the cursor has then, and
  immediately afterwards the cursor is that start time plus the duration of the buffer; the
  new source joins the live set. So the start time is the maximum of the cursor and the clock
  taken at the payload's arrival whenever nothing has changed the cursor during the decode, in
  particular when nothing else of the session runs during it.
\<close>

theorem handleAudio_schedules:
  assumes "outputAudioContext s = Some ctx" and "base64Audio m = Inr (Some b64)" and "b64 \<noteq> []"
  shows "handleAudio_begin m now s = (Suspended, s\<lparr>nextStartTime := max (nextStartTime s) now\<rparr>)
    \<and> fst (handleAudio_resume (Inr buf) s') = Returned
    \<and> trace (snd (handleAudio_resume (Inr buf) s'))
        = trace s' @ [SourceStart (next_id s') (nextStartTime s') (duration buf)]
    \<and> nextStartTime (snd (handleAudio_resume (Inr buf) s')) = nextStartTime s' + duration buf
    \<and> audioSources (snd (handleAudio_resume (Inr buf) s')) = set_add (next_id s') (audioSources s')
    \<and> (nextStartTime s' = max (nextStartTime s) now \<longrightarrow>
         trace (snd (handleAudio_resume (Inr buf) s'))
           = trace s' @ [SourceStart (next_id s') (max (nextStartTime s) now) (duration buf)]
         \<and> nextStartTime (snd (handleAudio_resume (Inr buf) s'))
           = max (nextStartTime s) now + duration buf)
    \<and> fst (handleAudio m now (Inr buf) s) = Returned
    \<and> trace (snd (handleAudio m now (Inr buf) s))
        = trace s @ [SourceStart (next_id s) (max (nextStartTime s) now) (duration buf)]
    \<and> nextStartTime (snd (handleAudio m now (Inr buf) s))
        = max (nextStartTime s) now + duration buf
    \<and> audioSources (snd (handleAudio m now (Inr buf) s)) = set_add (next_id s) (audioSources s)"
proof -
  have b: "handleAudio_begin m now s = (Suspended, s\<lparr>nextStartTime := max (nextStartTime s) now\<rparr>)"
    using assms by (simp add: handleAudio_begin_def)
  have r: "fst (handleAudio_resume (Inr buf) s') = Returned"
    "trace (snd (handleAudio_resume (Inr buf) s'))
        = trace s' @ [SourceStart (next_id s') (nextStartTime s') (duration buf)]"
    "nextStartTime (snd (handleAudio_resume (Inr buf) s')) = nextStartTime s' + duration buf"
    "audioSources (snd (handleAudio_resume (Inr buf) s')) = set_add (next_id s') (audioSources s')"
    by (simp_all add: handleAudio_resume_def emit_def Let_def)
  have c: "fst (handleAudio m now (Inr buf) s) = Returned"
    "trace (snd (handleAudio m now (Inr buf) s))
        = trace s @ [SourceStart (next_id s) (max (nextStartTime s) now) (duration buf)]"
    "nextStartTime (snd (handleAudio m now (Inr buf) s)) = max (nextStartTime s) now + duration buf"
    "audioSources (snd (handleAudio m now (Inr buf) s)) = set_add (next_id s) (audioSources s)"
    using assms by (simp_all add: handleAudio_unfold emit_def Let_def)
  from b r c show ?thesis by simp
qed

theorem handleAudio_schedules_witness:
  "outputAudioContext connected_session = Some 0
   \<and> base64Audio (audio_message ''AAAA'') = Inr (Some ''AAAA'')
   \<and> ''AAAA'' \<noteq> []
   \<and> nextStartTime connected_session = 0
   \<and> handleAudio_begin (audio_message ''AAAA'') 3 connected_session
       = (Suspended, connected_session\<lparr>nextStartTime := 3\<rparr>)
   \<and> trace (snd (handleAudio_resume (Inr (AudioBuffer 0.5)) (connected_session\<lparr>nextStartTime := 3\<rparr>)))
       = trace connected_session @ [SourceStart 4 3 0.5]
   \<and> nextStartTime (snd (handleAudio_resume (Inr (AudioBuffer 0.5)) (connected_session\<lparr>nextStartTime := 3\<rparr>)))
       = 3.5"
proof -
  have h1: "outputAudioContext connected_session = Some 0"
    by (simp add: connected_session_eq)
  have h2: "base64Audio (audio_message ''AAAA'') = Inr (Some ''AAAA'')"
    by (rule base64Audio_audio_message)
  have h3: "''AAAA'' \<noteq> []" by simp
  have n: "nextStartTime connected_session = 0" "next_id connected_session = 4"
    by (simp_all add: connected_session_eq)
  from handleAudio_schedules [OF h1 h2 h3, of 3 "AudioBuffer 0.5" "connected_session\<lparr>nextStartTime := 3\<rparr>"]
  have a: "handleAudio_begin (audio_message ''AAAA'') 3 connected_session
       = (Suspended, connected_session\<lparr>nextStartTime := max (nextStartTime connected_session) 3\<rparr>)"
    and b: "trace (snd (handleAudio_resume (Inr (AudioBuffer 0.5)) (connected_session\<lparr>nextStartTime := 3\<rparr>)))
        = trace (connected_session\<lparr>nextStartTime := 3\<rparr>)
          @ [SourceStart (next_id (connected_session\<lparr>nextStartTime := 3\<rparr>))
               (nextStartTime (connected_session\<lparr>nextStartTime := 3\<rparr>)) (duration (AudioBuffer 0.5))]"
    and c: "nextStartTime (snd (handleAudio_resume (Inr (AudioBuffer 0.5)) (connected_session\<lparr>nextStartTime := 3\<rparr>)))
        = nextStartTime (connected_session\<lparr>nextStartTime := 3\<rparr>) + duration (AudioBuffer 0.5)"
    by blast+
  from a n have a': "handleAudio_begin (audio_message ''AAAA'') 3 connected_session
       = (Suspended, connected_session\<lparr>nextStartTime := 3\<rparr>)" by simp
  from b n have b': "trace (snd (handleAudio_resume (Inr (AudioBuffer 0.5)) (connected_session\<lparr>nextStartTime := 3\<rparr>)))
       = trace connected_session @ [SourceStart 4 3 0.5]" by simp
  from c have c': "nextStartTime (snd (handleAudio_resume (Inr (AudioBuffer 0.5)) (connected_session\<lparr>nextStartTime := 3\<rparr>)))
       = 3.5" by simp
  from h1 h2 h3 n(1) a' b' c' show ?thesis by blast
qed

text \<open>
  C1 as stated fails when handlers overlap: a payload arrives with the cursor at 0 and the
  clock at 0, a second one arrives at clock 2 before the first decode is over, and the first
  buffer is then started at 2, not at the maximum of 0 and 0.
\<close>

theorem overlapping_handlers_counterexample:
  "nextStartTime connected_session = 0
   \<and> scheduled (trace (run True
        [Arrive (audio_message ''AAAA'') 0, Arrive (audio_message ''BBBB'') 2,
         Decoded 0 (Inr (AudioBuffer 0.5)), Decoded 0 (Inr (AudioBuffer 0.5))]
        connected_session)) = [(2, 0.5), (2.5, 0.5)]
   \<and> max (0 :: real) 0 \<noteq> 2"
  by (simp add: connected_session_eq arrive_audio decoded_audio set_add_def)

subsection \<open>Scheduling a sequence\<close>

text \<open>
  C4, as the code has it. Take any run of events with no interruption and no disconnect among
  them, whatever messages arrive in between and however the decodes of the handlers overlap,
  with durations that are not negative. The buffers scheduled in it never start before the
  buffer scheduled before them has ended: the i-th start time is at least the (i-1)-th start
  time plus its duration, so the start times are non-decreasing, and none is before the cursor
  the run began with. When the deliveries are handled one at a time (each decode is over
  before the next message arrives; messages without audio and failed decodes may come in
  between; the clock values do not decrease), the buffers are scheduled in order of receipt
  with their own durations, the first starts at the maximum of the cursor and its clock value,
  and every later one starts at the maximum of its predecessor's start plus duration and its
  own clock value, hence exactly at the predecessor's start plus duration whenever its clock
  value has not passed that instant.
\<close>

theorem scheduling_recurrence:
  "((\<forall>e \<in> set es. no_flush e) \<longrightarrow> (\<forall>m \<in> set (decoding s). \<not> is_interruption m) \<longrightarrow>
      (\<forall>i. Suc i < length (newly_scheduled s (run ai es s)) \<longrightarrow>
          fst (newly_scheduled s (run ai es s) ! i) + snd (newly_scheduled s (run ai es s) ! i)
            \<le> fst (newly_scheduled s (run ai es s) ! Suc i))
      \<and> sorted (map fst (newly_scheduled s (run ai es s)))
      \<and> (\<forall>p \<in> set (newly_scheduled s (run ai es s)). nextStartTime s \<le> fst p))
   \<and> (outputAudioContext s \<noteq> None \<longrightarrow> decoding s = [] \<longrightarrow>
      (\<forall>ev \<in> set evs. \<not> is_interruption (fst ev) \<and> 0 \<le> duration_of ev) \<longrightarrow>
      sorted (map clock_of evs) \<longrightarrow>
      length (newly_scheduled s (run ai (one_at_a_time evs) s)) = length (filter plays evs)
      \<and> (\<forall>i<length (filter plays evs).
            snd (newly_scheduled s (run ai (one_at_a_time evs) s) ! i)
              = duration_of (filter plays evs ! i))
      \<and> (filter plays evs \<noteq> [] \<longrightarrow>
            fst (newly_scheduled s (run ai (one_at_a_time evs) s) ! 0)
              = max (nextStartTime s) (clock_of (filter plays evs ! 0)))
      \<and> (\<forall>i. Suc i < length (filter plays evs) \<longrightarrow>
            fst (newly_scheduled s (run ai (one_at_a_time evs) s) ! Suc i)
              = max (fst (newly_scheduled s (run ai (one_at_a_time evs) s) ! i)
                     + snd (newly_scheduled s (run ai (one_at_a_time evs) s) ! i))
                    (clock_of (filter plays evs ! Suc i)))
      \<and> (\<forall>i. Suc i < length (filter plays evs) \<longrightarrow>
            clock_of (filter plays evs ! Suc i)
              \<le> fst (newly_scheduled s (run ai (one_at_a_time evs) s) ! i)
                 + snd (newly_scheduled s (run ai (one_at_a_time evs) s) ! i) \<longrightarrow>
            fst (newly_scheduled s (run ai (one_at_a_time evs) s) ! Suc i)
              = fst (newly_scheduled s (run ai (one_at_a_time evs) s) ! i)
                + snd (newly_scheduled s (run ai (one_at_a_time evs) s) ! i)))"
proof -
  have A: "(\<forall>i. Suc i < length (newly_scheduled s (run ai es s)) \<longrightarrow>
          fst (newly_scheduled s (run ai es s) ! i) + snd (newly_scheduled s (run ai es s) ! i)
            \<le> fst (newly_scheduled s (run ai es s) ! Suc i))
      \<and> sorted (map fst (newly_scheduled s (run ai es s)))
      \<and> (\<forall>p \<in> set (newly_scheduled s (run ai es s)). nextStartTime s \<le> fst p)"
    if h: "\<forall>e \<in> set es. no_flush e" "\<forall>m \<in> set (decoding s). \<not> is_interruption m"
  proof -
    note no = run_no_overlap [OF h, of ai]
    from no(2) have nn: "\<forall>p \<in> set (newly_scheduled s (run ai es s)). 0 \<le> snd p" by blast
    from no_overlap_nth [OF no(1)] no_overlap_sorted [OF no(1) nn] no(2)
    show ?thesis by blast
  qed
  have B: "length (newly_scheduled s (run ai (one_at_a_time evs) s)) = length (filter plays evs)
      \<and> (\<forall>i<length (filter plays evs).
            snd (newly_scheduled s (run ai (one_at_a_time evs) s) ! i)
              = duration_of (filter plays evs ! i))
      \<and> (filter plays evs \<noteq> [] \<longrightarrow>
            fst (newly_scheduled s (run ai (one_at_a_time evs) s) ! 0)
              = max (nextStartTime s) (clock_of (filter plays evs ! 0)))
      \<and> (\<forall>i. Suc i < length (filter plays evs) \<longrightarrow>
            fst (newly_scheduled s (run ai (one_at_a_time evs) s) ! Suc i)
              = max (fst (newly_scheduled s (run ai (one_at_a_time evs) s) ! i)
                     + snd (newly_scheduled s (run ai (one_at_a_time evs) s) ! i))
                    (clock_of (filter plays evs ! Suc i)))
      \<and> (\<forall>i. Suc i < length (filter plays evs) \<longrightarrow>
            clock_of (filter plays evs ! Suc i)
              \<le> fst (newly_scheduled s (run ai (one_at_a_time evs) s) ! i)
                 + snd (newly_scheduled s (run ai (one_at_a_time evs) s) ! i) \<longrightarrow>
            fst (newly_scheduled s (run ai (one_at_a_time evs) s) ! Suc i)
              = fst (newly_scheduled s (run ai (one_at_a_time evs) s) ! i)
                + snd (newly_scheduled s (run ai (one_at_a_time evs) s) ! i))"
    if h: "outputAudioContext s \<noteq> None" "decoding s = []"
      "\<forall>ev \<in> set evs. \<not> is_interruption (fst ev) \<and> 0 \<le> duration_of ev"
      "sorted (map clock_of evs)"
  proof -
    let ?P = "filter plays evs"
    let ?xs = "map (\<lambda>ev. (clock_of ev, duration_of ev)) ?P"
    let ?S = "newly_scheduled s (run ai (one_at_a_time evs) s)"
    have S: "?S = plan (nextStartTime s) ?xs"
      by (rule newly_scheduled_append) (rule one_at_a_time_plan [OF h])
    have 1: "length ?S = length ?P" by (simp add: S length_plan)
    have 2: "\<forall>i<length ?P. snd (?S ! i) = duration_of (?P ! i)"
      by (simp add: S plan_snd)
    have 3: "?P \<noteq> [] \<longrightarrow> fst (?S ! 0) = max (nextStartTime s) (clock_of (?P ! 0))"
      by (simp add: S plan_first nth_map [of 0 ?P])
    have 4: "\<forall>i. Suc i < length ?P \<longrightarrow>
             fst (?S ! Suc i) = max (fst (?S ! i) + snd (?S ! i)) (clock_of (?P ! Suc i))"
      by (simp add: S plan_step)
    from 4 have 5: "\<forall>i. Suc i < length ?P \<longrightarrow>
          clock_of (?P ! Suc i) \<le> fst (?S ! i) + snd (?S ! i) \<longrightarrow>
          fst (?S ! Suc i) = fst (?S ! i) + snd (?S ! i)"
      by (simp add: max_def)
    from 1 2 3 4 5 show ?thesis by blast
  qed
  from A B show ?thesis by blast
qed

theorem scheduling_recurrence_witness:
  "no_flush (Arrive (audio_message ''AAAA'') 0)
   \<and> no_flush (Arrive (audio_message ''BBBB'') 2)
   \<and> no_flush (Decoded 0 (Inr (AudioBuffer 0.5)))
   \<and> decoding connected_session = []
   \<and> length (newly_scheduled connected_session (run True
        [Arrive (audio_message ''AAAA'') 0, Arrive (audio_message ''BBBB'') 2,
         Decoded 0 (Inr (AudioBuffer 0.5)), Decoded 0 (Inr (AudioBuffer 0.5))] connected_session)) = 2
   \<and> fst (newly_scheduled connected_session (run True
        [Arrive (audio_message ''AAAA'') 0, Arrive (audio_message ''BBBB'') 2,
         Decoded 0 (Inr (AudioBuffer 0.5)), Decoded 0 (Inr (AudioBuffer 0.5))] connected_session) ! 0)
     + snd (newly_scheduled connected_session (run True
        [Arrive (audio_message ''AAAA'') 0, Arrive (audio_message ''BBBB'') 2,
         Decoded 0 (Inr (AudioBuffer 0.5)), Decoded 0 (Inr (AudioBuffer 0.5))] connected_session) ! 0)
     \<le> fst (newly_scheduled connected_session (run True
        [Arrive (audio_message ''AAAA'') 0, Arrive (audio_message ''BBBB'') 2,
         Decoded 0 (Inr (AudioBuffer 0.5)), Decoded 0 (Inr (AudioBuffer 0.5))] connected_session) ! 1)
   \<and> outputAudioContext connected_session \<noteq> None
   \<and> \<not> is_interruption (audio_message ''AAAA'')
   \<and> \<not> is_interruption transcript_message
   \<and> sorted [0, 0.1, 0.25 :: real]
   \<and> filter plays [(audio_message ''AAAA'', 0, Inr (AudioBuffer 0.5)),
                    (transcript_message, 0.1, Inl DecodeFailure),
                    (audio_message ''AAAA'', 0.25, Inr (AudioBuffer 0.5))]
       = [(audio_message ''AAAA'', 0, Inr (AudioBuffer 0.5)),
          (audio_message ''AAAA'', 0.25, Inr (AudioBuffer 0.5))]
   \<and> fst (newly_scheduled connected_session (run True (one_at_a_time
        [(audio_message ''AAAA'', 0, Inr (AudioBuffer 0.5)),
         (transcript_message, 0.1, Inl DecodeFailure),
         (audio_message ''AAAA'', 0.25, Inr (AudioBuffer 0.5))]) connected_session) ! 0) = 0
   \<and> fst (newly_scheduled connected_session (run True (one_at_a_time
        [(audio_message ''AAAA'', 0, Inr (AudioBuffer 0.5)),
         (transcript_message, 0.1, Inl DecodeFailure),
         (audio_message ''AAAA'', 0.25, Inr (AudioBuffer 0.5))]) connected_session) ! 1) = 0 + 0.5"
proof -
  let ?es = "[Arrive (audio_message ''AAAA'') 0, Arrive (audio_message ''BBBB'') 2,
         Decoded 0 (Inr (AudioBuffer 0.5)), Decoded 0 (Inr (AudioBuffer 0.5))]"
  let ?evs = "[(audio_message ''AAAA'', 0, Inr (AudioBuffer 0.5)),
         (transcript_message, 0.1, Inl DecodeFailure),
         (audio_message ''AAAA'', 0.25, Inr (AudioBuffer 0.5))] :: delivery list"
  let ?P = "[(audio_message ''AAAA'', 0, Inr (AudioBuffer 0.5)),
          (audio_message ''AAAA'', 0.25, Inr (AudioBuffer 0.5))] :: delivery list"
  let ?SA = "newly_scheduled connected_session (run True ?es connected_session)"
  let ?SB = "newly_scheduled connected_session (run True (one_at_a_time ?evs) connected_session)"
  have q: "\<not> is_interruption (audio_message ''AAAA'')" "\<not> is_interruption (audio_message ''BBBB'')"
    "\<not> is_interruption transcript_message"
    by (simp_all add: plays_audio_message plays_transcript_message)
  have f: "no_flush (Arrive (audio_message ''AAAA'') 0)" "no_flush (Arrive (audio_message ''BBBB'') 2)"
    "no_flush (Decoded 0 (Inr (AudioBuffer 0.5)))"
    using q by simp_all
  have a1: "\<forall>e \<in> set ?es. no_flush e" using f by simp
  have c: "decoding connected_session = []" "outputAudioContext connected_session \<noteq> None"
    "nextStartTime connected_session = 0"
    by (simp_all add: connected_session_eq)
  from c(1) have a2: "\<forall>m \<in> set (decoding connected_session). \<not> is_interruption m" by simp
  have len: "length ?SA = 2"
    by (simp add: newly_scheduled_def connected_session_eq arrive_audio decoded_audio set_add_def)
  have b3: "\<forall>ev \<in> set ?evs. \<not> is_interruption (fst ev) \<and> 0 \<le> duration_of ev"
    using q by simp
  have b4: "sorted (map clock_of ?evs)" by simp
  have srt: "sorted [0, 0.1, 0.25 :: real]" by simp
  have P: "filter plays ?evs = ?P"
    by (simp add: plays_audio_message plays_transcript_message)
  note inst = scheduling_recurrence [of ?es connected_session True ?evs]
  from inst a1 a2
  have A: "\<forall>i. Suc i < length ?SA \<longrightarrow> fst (?SA ! i) + snd (?SA ! i) \<le> fst (?SA ! Suc i)"
    by blast
  from A len have A0: "fst (?SA ! 0) + snd (?SA ! 0) \<le> fst (?SA ! 1)" by simp
  from inst c(2) c(1) b3 b4
  have B: "\<forall>i<length (filter plays ?evs). snd (?SB ! i) = duration_of (filter plays ?evs ! i)"
    "filter plays ?evs \<noteq> [] \<longrightarrow> fst (?SB ! 0) = max (nextStartTime connected_session) (clock_of (filter plays ?evs ! 0))"
    "\<forall>i. Suc i < length (filter plays ?evs) \<longrightarrow>
         fst (?SB ! Suc i) = max (fst (?SB ! i) + snd (?SB ! i)) (clock_of (filter plays ?evs ! Suc i))"
    by blast+
  from B(2) have B0: "fst (?SB ! 0) = 0" unfolding P by (simp add: c(3))
  from B(1) have Bd: "snd (?SB ! 0) = 0.5" unfolding P by simp
  from B(3) have "fst (?SB ! Suc 0) = max (fst (?SB ! 0) + snd (?SB ! 0)) (clock_of (?P ! Suc 0))"
    unfolding P by simp
  with B0 Bd have B1: "fst (?SB ! 1) = 0 + 0.5" by simp
  from f c(1) len A0 c(2) q(1) q(3) srt P B0 B1 show ?thesis by blast
qed

text \<open>
  C4 as stated fails for a payload that arrives late: two half-second buffers, handled one at
  a time, whose handlers read the clock at 0 and at 2 start at 0 and at 2, not at 0 and 0.5.
\<close>

theorem late_payload_counterexample:
  "newly_scheduled connected_session (run True
      (one_at_a_time [(audio_message ''AAAA'', 0, Inr (AudioBuffer 0.5)),
                      (audio_message ''AAAA'', 2, Inr (AudioBuffer 0.5))])
      connected_session) = [(0, 0.5), (2, 0.5)]
   \<and> (2 :: real) \<noteq> 0 + 0.5"
  by (simp add: newly_scheduled_def connected_session_eq arrive_audio decoded_audio set_add_def)

subsection \<open>Interruption\<close>

text \<open>
  C2, as the code has it. The interruption of a message with the \<open>interrupted\<close> flag is
  carried out when the audio handling of that message has returned, at its arrival or, if its
  handler waited for a decode, when that decode is over: then the live set is empty, every
  source that was live has been stopped, and the cursor is 0. A message that carries the flag
  and no model turn always gets that far. From a cursor of 0, a payload that is then handled
  with nothing else running during its decode is started at the clock value its handler reads,
  whatever was queued before.
\<close>

theorem interrupted_flushes_playback:
  "(is_interruption m \<longrightarrow> fst (onmessage_begin m now s) = Returned \<longrightarrow>
      audioSources (snd (onmessage_begin m now s)) = []
      \<and> nextStartTime (snd (onmessage_begin m now s)) = 0
      \<and> (\<forall>source \<in> set (audioSources s).
            SourceStop source \<in> set (trace (snd (onmessage_begin m now s)))))
   \<and> (k < length (decoding s) \<longrightarrow> is_interruption (decoding s ! k) \<longrightarrow>
      fst (onmessage_resume k decoded s) = Returned \<longrightarrow>
      audioSources (snd (onmessage_resume k decoded s)) = []
      \<and> nextStartTime (snd (onmessage_resume k decoded s)) = 0
      \<and> (\<forall>source \<in> set (audioSources s).
            SourceStop source \<in> set (trace (snd (onmessage_resume k decoded s)))))
   \<and> (serverContent m = Some sc \<longrightarrow> modelTurn sc = None \<longrightarrow>
      fst (onmessage_begin m now s) = Returned)
   \<and> (nextStartTime s' = 0 \<longrightarrow> outputAudioContext s' = Some ctx \<longrightarrow>
      base64Audio m' = Inr (Some b64) \<longrightarrow> b64 \<noteq> [] \<longrightarrow> 0 \<le> now' \<longrightarrow>
      trace (snd (handleAudio m' now' (Inr buf) s'))
        = trace s' @ [SourceStart (next_id s') now' (duration buf)])"
proof -
  have a: "audioSources (snd (onmessage_begin m now s)) = []
      \<and> nextStartTime (snd (onmessage_begin m now s)) = 0
      \<and> (\<forall>source \<in> set (audioSources s).
            SourceStop source \<in> set (trace (snd (onmessage_begin m now s))))"
    if i: "is_interruption m" and r: "fst (onmessage_begin m now s) = Returned"
  proof -
    let ?s0 = "emit (CallOnMessage m) s"
    from r have r0: "fst (handleAudio_begin m now ?s0) = Returned"
      by (cases "handleAudio_begin m now ?s0")
        (auto simp add: onmessage_begin_def split: outcome.splits)
    with handleAudio_begin_Returned [OF r0]
    have "snd (onmessage_begin m now s) = interruptAudio ?s0"
      by (cases "handleAudio_begin m now ?s0")
        (simp add: onmessage_begin_def interrupted_check_flushes [OF i])
    then show ?thesis
      by (auto simp add: interruptAudio_fields emit_def)
  qed
  have b: "audioSources (snd (onmessage_resume k decoded s)) = []
      \<and> nextStartTime (snd (onmessage_resume k decoded s)) = 0
      \<and> (\<forall>source \<in> set (audioSources s).
            SourceStop source \<in> set (trace (snd (onmessage_resume k decoded s))))"
    if k: "k < length (decoding s)" and i: "is_interruption (decoding s ! k)"
      and r: "fst (onmessage_resume k decoded s) = Returned"
  proof -
    let ?s1 = "s\<lparr>decoding := take k (decoding s) @ drop (Suc k) (decoding s)\<rparr>"
    from k r have r1: "fst (handleAudio_resume decoded ?s1) = Returned"
      by (cases "handleAudio_resume decoded ?s1")
        (auto simp add: onmessage_resume_def Let_def split: outcome.splits)
    with k have eq: "snd (onmessage_resume k decoded s)
        = interruptAudio (snd (handleAudio_resume decoded ?s1))"
      by (cases "handleAudio_resume decoded ?s1")
        (simp add: onmessage_resume_def Let_def interrupted_check_flushes [OF i])
    from handleAudio_resume_audioSources [OF r1]
    have "set (audioSources s) \<subseteq> set (audioSources (snd (handleAudio_resume decoded ?s1)))"
      by simp
    then show ?thesis
      by (auto simp add: eq interruptAudio_fields)
  qed
  have c: "fst (onmessage_begin m now s) = Returned"
    if "serverContent m = Some sc" and "modelTurn sc = None"
    using that
    by (simp add: onmessage_begin_def handleAudio_begin_def base64Audio_def emit_def
        split: option.splits)
  have d: "trace (snd (handleAudio m' now' (Inr buf) s'))
        = trace s' @ [SourceStart (next_id s') now' (duration buf)]"
    if "nextStartTime s' = 0" "outputAudioContext s' = Some ctx"
      "base64Audio m' = Inr (Some b64)" "b64 \<noteq> []" "0 \<le> now'"
    using that by (simp add: handleAudio_unfold emit_def Let_def)
  from a b c d show ?thesis by blast
qed

theorem interrupted_flushes_playback_witness:
  "is_interruption interruption_message
   \<and> serverContent interruption_message = Some (ServerContent None True)
   \<and> modelTurn (ServerContent None True) = None
   \<and> fst (onmessage_begin interruption_message 0.25 playing_session) = Returned
   \<and> audioSources playing_session = [4]
   \<and> audioSources (snd (onmessage_begin interruption_message 0.25 playing_session)) = []
   \<and> nextStartTime (snd (onmessage_begin interruption_message 0.25 playing_session)) = 0
   \<and> SourceStop 4 \<in> set (trace (snd (onmessage_begin interruption_message 0.25 playing_session)))"
proof -
  let ?s' = "snd (onmessage_begin interruption_message 0.25 playing_session)"
  have h0: "is_interruption interruption_message"
    by (simp add: is_interruption_def interruption_message_def)
  have h1: "serverContent interruption_message = Some (ServerContent None True)"
    by (simp add: interruption_message_def)
  have h2: "modelTurn (ServerContent None True) = None" by simp
  have h4: "audioSources playing_session = [4]"
    by (simp add: playing_session_eq)
  note inst = interrupted_flushes_playback
    [of interruption_message "0.25" playing_session _ _ "ServerContent None True"]
  from inst h1 h2 have h3: "fst (onmessage_begin interruption_message 0.25 playing_session) = Returned"
    by blast
  from inst h0 h3
  have a: "audioSources ?s' = []" and b: "nextStartTime ?s' = 0"
    and c: "\<forall>source \<in> set (audioSources playing_session). SourceStop source \<in> set (trace ?s')"
    by blast+
  from c h4 have "SourceStop 4 \<in> set (trace ?s')" by simp
  with a b h0 h1 h2 h3 h4 show ?thesis by blast
qed

text \<open>
  C2 as stated fails in two ways. When the audio handling of the interrupting message throws
  (here its first part is not inline data), lines 90 to 92 are not reached: the live set and
  the cursor stay as they were. And a handler that was waiting for its decode when the
  interruption came resumes after it: the next buffer scheduled is the one that arrived before
  the interruption, started at 0, and it is live again.
\<close>

theorem skipped_interruption_counterexample:
  "is_interruption text_first_interruption
   \<and> audioSources playing_session = [4]
   \<and> fst (onmessage_begin text_first_interruption 1 playing_session) = Threw TypeError
   \<and> audioSources (snd (onmessage_begin text_first_interruption 1 playing_session)) = [4]
   \<and> nextStartTime (snd (onmessage_begin text_first_interruption 1 playing_session)) = 0.5
   \<and> audioSources (run True
        [Arrive (audio_message ''AAAA'') 3, Arrive interruption_message 4,
         Decoded 0 (Inr (AudioBuffer 0.5))] connected_session) = [4]
   \<and> scheduled (trace (run True
        [Arrive (audio_message ''AAAA'') 3, Arrive interruption_message 4,
         Decoded 0 (Inr (AudioBuffer 0.5))] connected_session)) = [(0, 0.5)]"
proof -
  have a: "is_interruption text_first_interruption"
    by (simp add: is_interruption_def text_first_interruption_def)
  have b: "onmessage_begin text_first_interruption 1 playing_session
      = (Threw TypeError, emit (CallOnMessage text_first_interruption) playing_session)"
    by (simp add: onmessage_begin_def handleAudio_begin_def base64Audio_def
        text_first_interruption_def playing_session_eq emit_def)
  have c: "run True [Arrive (audio_message ''AAAA'') 3, Arrive interruption_message 4,
         Decoded 0 (Inr (AudioBuffer 0.5))] connected_session
     = connected_session\<lparr>trace := trace connected_session
          @ [CallOnMessage (audio_message ''AAAA''), CallOnMessage interruption_message,
             SourceStart 4 0 0.5],
        nextStartTime := 0.5, audioSources := [4], next_id := 5\<rparr>"
    by (simp add: connected_session_eq arrive_audio arrive_interruption decoded_audio
        interruptAudio_def emit_def set_add_def)
  have p: "audioSources playing_session = [4]" "nextStartTime playing_session = 0.5"
    by (simp_all add: playing_session_eq)
  have b1: "fst (onmessage_begin text_first_interruption 1 playing_session) = Threw TypeError"
    "audioSources (snd (onmessage_begin text_first_interruption 1 playing_session)) = [4]"
    "nextStartTime (snd (onmessage_begin text_first_interruption 1 playing_session)) = 0.5"
    by (simp_all add: b emit_def p)
  have c1: "audioSources (run True [Arrive (audio_message ''AAAA'') 3, Arrive interruption_message 4,
         Decoded 0 (Inr (AudioBuffer 0.5))] connected_session) = [4]"
    "scheduled (trace (run True [Arrive (audio_message ''AAAA'') 3, Arrive interruption_message 4,
         Decoded 0 (Inr (AudioBuffer 0.5))] connected_session)) = [(0, 0.5)]"
    unfolding c by (simp_all add: scheduled_append connected_session_eq)
  from a p(1) b1 c1 show ?thesis by blast
qed

subsection \<open>Teardown\<close>

text \<open>
  C5, as the code has it. Invoked with no session promise or with a resolved one (no connect
  made, or the transport opened, before or after an error or close event), \<open>disconnect\<close>
  returns without throwing and leaves the session with no session promise, an empty live set
  with every former source stopped, the cursor at 0, the session's transport closed and both
  of its audio contexts closed; called again straight away it returns without throwing again
  and these stay as they are. Invoked while the connect is in flight, it waits for the session
  promise, and stays waiting through every other event; when the promise is resolved, every
  waiting call carries out that same teardown, and a further call then returns without
  throwing.
\<close>

theorem disconnect_teardown:
  "(sessionPromise s = None \<or> sessionPromise s = Some (Fulfilled t) \<longrightarrow>
        fst (disconnect s) = Returned
        \<and> sessionPromise (snd (disconnect s)) = None
        \<and> audioSources (snd (disconnect s)) = []
        \<and> nextStartTime (snd (disconnect s)) = 0
        \<and> (\<forall>source \<in> set (audioSources s). SourceStop source \<in> set (trace (snd (disconnect s))))
        \<and> (sessionPromise s = Some (Fulfilled t) \<longrightarrow>
              t \<notin> set (held_transports (snd (disconnect s))))
        \<and> (\<forall>c. inputAudioContext s = Some c \<or> outputAudioContext s = Some c \<longrightarrow>
              c \<notin> set (held_contexts (snd (disconnect s))))
        \<and> fst (disconnect (snd (disconnect s))) = Returned
        \<and> sessionPromise (snd (disconnect (snd (disconnect s)))) = None
        \<and> audioSources (snd (disconnect (snd (disconnect s)))) = []
        \<and> nextStartTime (snd (disconnect (snd (disconnect s)))) = 0
        \<and> held_contexts (snd (disconnect (snd (disconnect s)))) = held_contexts (snd (disconnect s))
        \<and> held_transports (snd (disconnect (snd (disconnect s)))) = held_transports (snd (disconnect s)))
   \<and> (sessionPromise s = Some (Pending t) \<longrightarrow>
        disconnect s = (Suspended, s\<lparr>parked_disconnects := Suc (parked_disconnects s)\<rparr>)
        \<and> (\<forall>e. (\<forall>ok. e \<noteq> Settle ok) \<longrightarrow>
              sessionPromise (step ai e s) = Some (Pending t)
              \<and> parked_disconnects s \<le> parked_disconnects (step ai e s)))
   \<and> (sessionPromise s = Some (Pending t) \<longrightarrow> 0 < parked_disconnects s \<longrightarrow>
        sessionPromise (settle True s) = None
        \<and> audioSources (settle True s) = []
        \<and> nextStartTime (settle True s) = 0
        \<and> parked_disconnects (settle True s) = 0
        \<and> (\<forall>source \<in> set (audioSources s). SourceStop source \<in> set (trace (settle True s)))
        \<and> t \<notin> set (held_transports (settle True s))
        \<and> (\<forall>c. inputAudioContext s = Some c \<or> outputAudioContext s = Some c \<longrightarrow>
              c \<notin> set (held_contexts (settle True s)))
        \<and> fst (disconnect (settle True s)) = Returned
        \<and> sessionPromise (snd (disconnect (settle True s))) = None
        \<and> audioSources (snd (disconnect (settle True s))) = []
        \<and> nextStartTime (snd (disconnect (settle True s))) = 0)"
proof -
  have main: "fst (disconnect s) = Returned
        \<and> sessionPromise (snd (disconnect s)) = None
        \<and> audioSources (snd (disconnect s)) = []
        \<and> nextStartTime (snd (disconnect s)) = 0
        \<and> (\<forall>source \<in> set (audioSources s). SourceStop source \<in> set (trace (snd (disconnect s))))
        \<and> (sessionPromise s = Some (Fulfilled t) \<longrightarrow>
              t \<notin> set (held_transports (snd (disconnect s))))
        \<and> (\<forall>c. inputAudioContext s = Some c \<or> outputAudioContext s = Some c \<longrightarrow>
              c \<notin> set (held_contexts (snd (disconnect s))))
        \<and> fst (disconnect (snd (disconnect s))) = Returned
        \<and> sessionPromise (snd (disconnect (snd (disconnect s)))) = None
        \<and> audioSources (snd (disconnect (snd (disconnect s)))) = []
        \<and> nextStartTime (snd (disconnect (snd (disconnect s)))) = 0
        \<and> held_contexts (snd (disconnect (snd (disconnect s)))) = held_contexts (snd (disconnect s))
        \<and> held_transports (snd (disconnect (snd (disconnect s)))) = held_transports (snd (disconnect s))"
    if sp: "sessionPromise s = None \<or> sessionPromise s = Some (Fulfilled t)"
  proof -
    define s0 where "s0 = (if sessionPromise s = None then s else emit (SessionClose t) s)"
    have d: "disconnect s = (Returned, teardown s0)"
      using sp by (auto simp add: disconnect_def s0_def)
    have d2: "disconnect (teardown s0) = (Returned, teardown (teardown s0))"
      by (simp add: disconnect_def teardown_fields)
    have f: "inputAudioContext s0 = inputAudioContext s" "outputAudioContext s0 = outputAudioContext s"
      "audioSources s0 = audioSources s"
      by (simp_all add: s0_def emit_def)
    have tr: "sessionPromise s = Some (Fulfilled t) \<longrightarrow> t \<notin> set (held_transports (teardown s0))"
      by (auto simp add: held_transports_def teardown_fields s0_def emit_def)
    have ctx: "\<forall>c. inputAudioContext s = Some c \<or> outputAudioContext s = Some c \<longrightarrow>
              c \<notin> set (held_contexts (teardown s0))"
      by (auto simp add: held_contexts_def teardown_fields f)
    have stops: "\<forall>source \<in> set (audioSources s). SourceStop source \<in> set (trace (teardown s0))"
      by (simp add: teardown_fields f)
    have again: "held_contexts (teardown (teardown s0)) = held_contexts (teardown s0)"
      "held_transports (teardown (teardown s0)) = held_transports (teardown s0)"
      by (rule teardown_again)+
    have flds: "sessionPromise (teardown s0) = None" "audioSources (teardown s0) = []"
      "nextStartTime (teardown s0) = 0" "sessionPromise (teardown (teardown s0)) = None"
      "audioSources (teardown (teardown s0)) = []" "nextStartTime (teardown (teardown s0)) = 0"
      by (simp_all add: teardown_fields)
    from tr ctx stops again flds show ?thesis
      unfolding d d2 fst_conv snd_conv by blast
  qed
  have park: "disconnect s = (Suspended, s\<lparr>parked_disconnects := Suc (parked_disconnects s)\<rparr>)"
    if "sessionPromise s = Some (Pending t)"
    using that by (simp add: disconnect_def)
  have after: "fst (disconnect (settle True s)) = Returned
        \<and> sessionPromise (snd (disconnect (settle True s))) = None
        \<and> audioSources (snd (disconnect (settle True s))) = []
        \<and> nextStartTime (snd (disconnect (settle True s))) = 0"
    if "sessionPromise s = Some (Pending t)" "0 < parked_disconnects s"
    using settle_parked(1) [OF that] by (simp add: disconnect_def teardown_fields)
  from main park step_keeps_parked [of s t _ ai] settle_parked [of s t] after
  show ?thesis by blast
qed

theorem disconnect_teardown_witness:
  "sessionPromise playing_session = Some (Fulfilled 1)
   \<and> fst (disconnect playing_session) = Returned
   \<and> sessionPromise (snd (disconnect playing_session)) = None
   \<and> audioSources (snd (disconnect playing_session)) = []
   \<and> nextStartTime (snd (disconnect playing_session)) = 0
   \<and> SourceStop 4 \<in> set (trace (snd (disconnect playing_session)))
   \<and> 1 \<notin> set (held_transports (snd (disconnect playing_session)))
   \<and> 0 \<notin> set (held_contexts (snd (disconnect playing_session)))
   \<and> 2 \<notin> set (held_contexts (snd (disconnect playing_session)))
   \<and> fst (disconnect (snd (disconnect playing_session))) = Returned
   \<and> sessionPromise (snd (connect True initial)) = Some (Pending 1)
   \<and> fst (disconnect (snd (connect True initial))) = Suspended
   \<and> sessionPromise (snd (disconnect (snd (connect True initial)))) = Some (Pending 1)
   \<and> 0 < parked_disconnects (snd (disconnect (snd (connect True initial))))
   \<and> sessionPromise (settle True (snd (disconnect (snd (connect True initial))))) = None
   \<and> 1 \<notin> set (held_transports (settle True (snd (disconnect (snd (connect True initial))))))
   \<and> 0 \<notin> set (held_contexts (settle True (snd (disconnect (snd (connect True initial))))))"
proof -
  let ?c = "snd (connect True initial)"
  let ?p = "snd (disconnect ?c)"
  have p: "sessionPromise ?c = Some (Pending 1)"
    by (simp add: connecting_eq)
  have f: "sessionPromise playing_session = Some (Fulfilled 1)"
    by (simp add: playing_session_eq)
  have g: "audioSources playing_session = [4]" "inputAudioContext playing_session = Some 2"
    "outputAudioContext playing_session = Some 0"
    by (simp_all add: playing_session_eq)
  have q: "sessionPromise ?p = Some (Pending 1)" "0 < parked_disconnects ?p"
    "outputAudioContext ?p = Some 0"
    by (simp_all add: parked_eq)
  from disconnect_teardown [of ?c 1] p
  have a: "disconnect ?c = (Suspended, ?c\<lparr>parked_disconnects := Suc (parked_disconnects ?c)\<rparr>)"
    by blast
  then have a': "fst (disconnect ?c) = Suspended" by simp
  from disconnect_teardown [of playing_session 1] f
  have b: "fst (disconnect playing_session) = Returned"
    "sessionPromise (snd (disconnect playing_session)) = None"
    "audioSources (snd (disconnect playing_session)) = []"
    "nextStartTime (snd (disconnect playing_session)) = 0"
    "\<forall>source \<in> set (audioSources playing_session). SourceStop source \<in> set (trace (snd (disconnect playing_session)))"
    "1 \<notin> set (held_transports (snd (disconnect playing_session)))"
    "\<forall>c. inputAudioContext playing_session = Some c \<or> outputAudioContext playing_session = Some c \<longrightarrow>
              c \<notin> set (held_contexts (snd (disconnect playing_session)))"
    "fst (disconnect (snd (disconnect playing_session))) = Returned"
    by blast+
  from b(5) g(1) have c: "SourceStop 4 \<in> set (trace (snd (disconnect playing_session)))"
    by simp
  from b(7) g(2,3) have d: "0 \<notin> set (held_contexts (snd (disconnect playing_session)))"
    "2 \<notin> set (held_contexts (snd (disconnect playing_session)))"
    by blast+
  from disconnect_teardown [of ?p 1] q(1,2)
  have e: "sessionPromise (settle True ?p) = None"
    "1 \<notin> set (held_transports (settle True ?p))"
    "\<forall>c. inputAudioContext ?p = Some c \<or> outputAudioContext ?p = Some c \<longrightarrow>
           c \<notin> set (held_contexts (settle True ?p))"
    by blast+
  from e(3) q(3) have e3: "0 \<notin> set (held_contexts (settle True ?p))" by blast
  from f b(1-4) c b(6) d b(8) p a' q(1,2) e(1,2) e3 show ?thesis by blast
qed

text \<open>
  C5 as stated fails in two ways. With a rejected session promise the \<open>await\<close> throws and
  nothing is torn down, whether \<open>disconnect\<close> is called after the rejection or was waiting
  for the promise. And after a teardown from the connected session the microphone stream
  acquired by the open handler is still held, no track of it ever being stopped.
\<close>

theorem disconnect_counterexample:
  "fst (disconnect (settle False (snd (connect True initial)))) = Threw (Error ''connect rejected'')
   \<and> held_contexts (snd (disconnect (settle False (snd (connect True initial))))) = [0]
   \<and> held_contexts (settle False (snd (disconnect (snd (connect True initial))))) = [0]
   \<and> held_transports (settle False (snd (disconnect (snd (connect True initial))))) = [1]
   \<and> fst (disconnect connected_session) = Returned
   \<and> held_microphones (snd (disconnect connected_session)) = [3]"
  by (simp add: parked_eq connecting_eq connected_session_eq settle_def disconnect_def teardown_def
      close_context_def interruptAudio_def emit_def held_contexts_def held_transports_def
      held_microphones_def Let_def)

end
